theory Spec2Isabelle
  imports Main "HOL-Library.Sublist"
begin

chapter \<open>mcp-codemode: interface generation, validation gate, sandboxes, error mapper\<close>

text \<open>
  A shallow embedding of the JavaScript sources. A JavaScript string is a \<^typ>\<open>string\<close>,
  one \<^typ>\<open>char\<close> per code unit; the character classes below are those of the regular
  expressions of the sources. \<open>undefined\<close> and absent object keys are \<open>None\<close>. Calls into
  the JavaScript runtime and into third-party packages (the TypeScript compiler,
  isolated-vm, \<open>JSON.stringify\<close>, \<open>String\<close>, \<open>toUpperCase\<close>, \<open>toLowerCase\<close>) are
  parameters of the functions that make them, or outcomes handed to them.
\<close>

section \<open>Strings\<close>

definition newline :: char where
  "newline = CHR 0x0A"

definition dquote :: char where
  "dquote = CHR 0x22"

text \<open>\<open>Array.prototype.join\<close> on an array of strings.\<close>

fun join :: "string \<Rightarrow> string list \<Rightarrow> string" where
  "join sep [] = []"
| "join sep [x] = x"
| "join sep (x # y # rest) = x @ sep @ join sep (y # rest)"

text \<open>The regular-expression class \<open>[a-zA-Z0-9_]\<close>, which is also \<open>\w\<close>.\<close>

definition lowerLetters :: string where
  "lowerLetters = ''abcdefghijklmnopqrstuvwxyz''"

definition upperLetters :: string where
  "upperLetters = ''ABCDEFGHIJKLMNOPQRSTUVWXYZ''"

definition digits :: string where
  "digits = ''0123456789''"

definition isWordChar :: "char \<Rightarrow> bool" where
  "isWordChar c = (c \<in> set lowerLetters \<or> c \<in> set upperLetters \<or> c \<in> set digits \<or> c = CHR ''_'')"

text \<open>
  \<open>String.prototype.toUpperCase\<close> and \<open>toLowerCase\<close> follow the case tables of the runtime
  (the upper case of one code unit can be two code units), so the functions that call
  them take them as parameters. On a string of ASCII code units they are the two
  functions below, which stand for them in the concrete inputs.
\<close>

definition asciiToUpperCase :: "string \<Rightarrow> string" where
  "asciiToUpperCase s =
     map (\<lambda>c. case map_of (zip lowerLetters upperLetters) c of Some u \<Rightarrow> u | None \<Rightarrow> c) s"

definition asciiToLowerCase :: "string \<Rightarrow> string" where
  "asciiToLowerCase s =
     map (\<lambda>c. case map_of (zip upperLetters lowerLetters) c of Some l \<Rightarrow> l | None \<Rightarrow> c) s"

text \<open>\<open>s.split(/[...]/)\<close> for a one-character separator class \<open>sep\<close>.\<close>

fun split :: "(char \<Rightarrow> bool) \<Rightarrow> string \<Rightarrow> string list" where
  "split sep [] = [[]]"
| "split sep (c # cs) =
     (if sep c then [] # split sep cs
      else (case split sep cs of
              [] \<Rightarrow> [[c]]
            | part # parts \<Rightarrow> (c # part) # parts))"

text \<open>\<open>s.replace(/\n/g, replacement)\<close>, for a replacement text without \<open>$\<close>.\<close>

definition replaceNewlines :: "string \<Rightarrow> string \<Rightarrow> string" where
  "replaceNewlines replacement s =
     concat (map (\<lambda>c. if c = newline then replacement else [c]) s)"

text \<open>\<open>s.includes(sub)\<close>.\<close>

fun includesStr :: "string \<Rightarrow> string \<Rightarrow> bool" where
  "includesStr [] sub = (sub = [])"
| "includesStr (c # cs) sub = (take (length sub) (c # cs) = sub \<or> includesStr cs sub)"

text \<open>The decimal text of a non-negative integer, as a template literal prints it.\<close>

fun showNat :: "nat \<Rightarrow> string" where
  "showNat n = (if n < 10 then [digits ! n] else showNat (n div 10) @ [digits ! (n mod 10)])"

section \<open>Calls that may raise\<close>

text \<open>How a call of a JavaScript function ends: with a value, or with a raised error.\<close>

datatype 'a completion = Returns 'a | Throws string

text \<open>
  The results of \<open>Array.prototype.map\<close> when the callback may raise: the first raised
  error ends the loop.
\<close>

fun mapResults :: "'a completion list \<Rightarrow> 'a list completion" where
  "mapResults [] = Returns []"
| "mapResults (Throws e # rest) = Throws e"
| "mapResults (Returns x # rest) =
     (case mapResults rest of Throws e \<Rightarrow> Throws e | Returns xs \<Rightarrow> Returns (x # xs))"

section \<open>schema-to-types.js\<close>

text \<open>
  A JSON Schema object, by the keywords the generator reads. A keyword that is absent
  is \<open>None\<close>. A place that holds a schema may hold \<open>null\<close> instead, which is \<open>None\<close> too:
  the elements of \<open>anyOf\<close>, \<open>oneOf\<close> and \<open>allOf\<close>, \<open>items\<close>, and the values of
  \<open>properties\<close>. \<open>additionalProperties\<close> is a boolean or a schema; \<open>properties\<close> keeps the
  order of \<open>Object.entries\<close>; an \<open>enum\<close> value is the text \<open>${v}\<close> of the value.
\<close>

datatype schema = Schema
  (anyOf: "schema option list option")
  (oneOf: "schema option list option")
  (allOf: "schema option list option")
  (type: "string option")
  (enum: "string list option")
  (items: "schema option")
  (properties: "(string \<times> schema option) list option")
  (required: "string list option")
  (additionalProperties: "(bool + schema) option")
  (description: "string option")

definition sanitizeName :: "string \<Rightarrow> string" where
  "sanitizeName name = map (\<lambda>c. if isWordChar c then c else CHR ''_'') name"

text \<open>
  \<open>toPascalCase(str)\<close>; \<open>toUpperCase\<close> and \<open>toLowerCase\<close> are the two methods of the
  runtime.
\<close>

definition toPascalCase ::
  "(string \<Rightarrow> string) \<Rightarrow> (string \<Rightarrow> string) \<Rightarrow> string \<Rightarrow> string" where
  "toPascalCase toUpperCase toLowerCase str =
     concat (map (\<lambda>part. toUpperCase (take 1 part) @ toLowerCase (drop 1 part))
               (split (\<lambda>c. c = CHR ''-'' \<or> c = CHR ''_'') str))"

text \<open>
  The JSDoc comment of a property: empty when the description is absent or the empty
  string (both falsy).
\<close>

definition propertyComment :: "string \<Rightarrow> string option \<Rightarrow> string" where
  "propertyComment spaces d =
     (case d of
        None \<Rightarrow> ''''
      | Some text \<Rightarrow>
          if text = [] then ''''
          else spaces @ ''  /**'' @ [newline] @ spaces @ ''   * ''
               @ replaceNewlines ([newline] @ spaces @ ''   * '') text
               @ [newline] @ spaces @ ''   */'' @ [newline])"

text \<open>The template \<open>${comment}${spaces}  ${key}${optionalMark}: ${propType};\<close>.\<close>

definition propertyLine :: "string \<Rightarrow> string \<Rightarrow> string \<Rightarrow> string \<Rightarrow> string \<Rightarrow> string" where
  "propertyLine comment spaces key optionalMark propType =
     comment @ spaces @ ''  '' @ key @ optionalMark @ '': '' @ propType @ '';''"

text \<open>\<open>schema.required?.includes(key) ?? false\<close>, then the mark.\<close>

definition optionalMark :: "string list option \<Rightarrow> string \<Rightarrow> string" where
  "optionalMark req key =
     (let isRequired = (case req of Some names \<Rightarrow> key \<in> set names | None \<Rightarrow> False)
      in if isRequired then '''' else ''?'')"

text \<open>The error of reading \<open>propSchema.description\<close> when \<open>propSchema\<close> is \<open>null\<close>.\<close>

definition nullDescription :: string where
  "nullDescription = ''Cannot read properties of null (reading 'description')''"

text \<open>
  \<open>jsonSchemaToTypeScript(schema, indent)\<close>. The first argument is \<open>None\<close> for a falsy
  schema. The \<open>switch\<close> on \<open>schema.type\<close> is the chain of tests below, in its order.
\<close>

function jsonSchemaToTypeScript :: "schema option \<Rightarrow> nat \<Rightarrow> string completion" where
  "jsonSchemaToTypeScript None indent = Returns ''unknown''"
| "jsonSchemaToTypeScript (Some schema) indent =
    (let spaces = replicate indent CHR '' '' in
     case anyOf schema of
       Some branches \<Rightarrow>
         (case mapResults (map (\<lambda>s. jsonSchemaToTypeScript s indent) branches) of
            Throws e \<Rightarrow> Throws e
          | Returns texts \<Rightarrow> Returns (join '' | '' texts))
     | None \<Rightarrow>
     (case oneOf schema of
       Some branches \<Rightarrow>
         (case mapResults (map (\<lambda>s. jsonSchemaToTypeScript s indent) branches) of
            Throws e \<Rightarrow> Throws e
          | Returns texts \<Rightarrow> Returns (join '' | '' texts))
     | None \<Rightarrow>
     (case allOf schema of
       Some branches \<Rightarrow>
         (case branches of
            [] \<Rightarrow> jsonSchemaToTypeScript None indent
          | first # _ \<Rightarrow> jsonSchemaToTypeScript first indent)
     | None \<Rightarrow>
       if type schema = Some ''string'' then
         (case enum schema of
            Some values \<Rightarrow>
              Returns (join '' | '' (map (\<lambda>v. [dquote] @ v @ [dquote]) values))
          | None \<Rightarrow> Returns ''string'')
       else if type schema = Some ''number'' \<or> type schema = Some ''integer''
         then Returns ''number''
       else if type schema = Some ''boolean'' then Returns ''boolean''
       else if type schema = Some ''null'' then Returns ''null''
       else if type schema = Some ''array'' then
         (case (case items schema of
                  Some itemSchema \<Rightarrow> jsonSchemaToTypeScript (Some itemSchema) indent
                | None \<Rightarrow> Returns ''unknown'') of
            Throws e \<Rightarrow> Throws e
          | Returns itemType \<Rightarrow> Returns (itemType @ ''[]''))
       else if type schema = Some ''object'' then
         (case properties schema of
            None \<Rightarrow>
              if additionalProperties schema = Some (Inl False) then Returns ''{}''
              else Returns ''Record<string, unknown>''
          | Some entries \<Rightarrow>
              (case mapResults
                      (map (\<lambda>(key, propSchema).
                              (case propSchema of
                                 None \<Rightarrow> Throws nullDescription
                               | Some p \<Rightarrow>
                                   (case jsonSchemaToTypeScript (Some p) (indent + 2) of
                                      Throws e \<Rightarrow> Throws e
                                    | Returns propType \<Rightarrow>
                                        Returns (propertyLine
                                                   (propertyComment spaces (description p))
                                                   spaces key
                                                   (optionalMark (required schema) key)
                                                   propType))))
                         entries) of
                 Throws e \<Rightarrow> Throws e
               | Returns lines \<Rightarrow>
                   (case (case additionalProperties schema of
                            Some (Inr additionalSchema) \<Rightarrow>
                              (case jsonSchemaToTypeScript (Some additionalSchema) (indent + 2) of
                                 Throws e \<Rightarrow> Throws e
                               | Returns additionalType \<Rightarrow>
                                   Returns ([newline] @ spaces @ ''  [key: string]: ''
                                            @ additionalType @ '';''))
                          | Some (Inl True) \<Rightarrow>
                              Returns ([newline] @ spaces @ ''  [key: string]: unknown;'')
                          | _ \<Rightarrow> Returns '''') of
                      Throws e \<Rightarrow> Throws e
                    | Returns additionalProps \<Rightarrow>
                        Returns (''{'' @ [newline] @ join [newline] lines @ additionalProps
                                 @ [newline] @ spaces @ ''}''))))
       else Returns ''unknown'')))"
  by pat_completeness auto
termination
proof -
  have in_list: "size_option size s < Suc (size sc)"
    if "s \<in> set bs" "anyOf sc = Some bs \<or> oneOf sc = Some bs \<or> allOf sc = Some bs"
    for s :: "schema option" and bs sc
  proof -
    from that(1) have "size_option size s \<le> size_list (size_option size) bs"
      by (simp add: size_list_estimation')
    with that(2) show ?thesis by (cases sc) auto
  qed
  have in_first: "size_option size s < Suc (size sc)"
    if "allOf sc = Some (s # rest)" for s rest and sc :: schema
    using that by (cases sc) simp
  have in_items: "size s < size sc" if "items sc = Some s" for s sc :: schema
    using that by (cases sc) simp
  have in_props: "size s < size sc"
    if "(k, Some s) \<in> set es" "properties sc = Some es" for k :: string and s es sc
  proof -
    from that(1)
    have "size_prod (\<lambda>x. 0) (size_option size) (k, Some s)
            \<le> size_list (size_prod (\<lambda>x. 0) (size_option size)) es"
      by (rule size_list_estimation') simp
    with that(2) show ?thesis by (cases sc) simp
  qed
  have in_additional: "size s < size sc"
    if "additionalProperties sc = Some (Inr s)" for s sc :: schema
    using that by (cases sc) simp
  have positive: "0 < size sc" for sc :: schema
    by (cases sc) simp
  show ?thesis
    by (relation "measure (\<lambda>(s, i). size_option size s)")
      (auto simp: in_list in_first in_items in_props in_additional positive)
qed

text \<open>A tool descriptor as \<open>listTools\<close> returns it.\<close>

record tool =
  toolName :: string
  toolDescription :: "string option"
  inputSchema :: "schema option"

text \<open>The schema that \<open>tool.inputSchema || { type: 'object', properties: {} }\<close> falls back to.\<close>

definition emptyObjectSchema :: schema where
  "emptyObjectSchema =
     Schema None None None (Some ''object'') None None (Some []) None None None"

text \<open>
  One turn of the loop \<open>for (const tool of tools)\<close> of \<open>generateTypeScriptDefinitions\<close>, on
  the two arrays \<open>interfaces\<close> and \<open>toolMethods\<close>; an error raised by the translation of
  the input schema ends the loop and the function.
\<close>

definition generateTool ::
  "(string \<Rightarrow> string) \<Rightarrow> (string \<Rightarrow> string)
   \<Rightarrow> (string list \<times> string list) completion \<Rightarrow> tool
   \<Rightarrow> (string list \<times> string list) completion" where
  "generateTool toUpperCase toLowerCase acc tool =
     (case acc of
        Throws e \<Rightarrow> Throws e
      | Returns (interfaces, toolMethods) \<Rightarrow>
          (let safeName = sanitizeName (toolName tool);
               pascalName = toPascalCase toUpperCase toLowerCase (toolName tool);
               inputInterfaceName = pascalName @ ''Input'';
               inputSchema =
                 (case inputSchema tool of Some s \<Rightarrow> s | None \<Rightarrow> emptyObjectSchema)
           in case jsonSchemaToTypeScript (Some inputSchema) 0 of
                Throws e \<Rightarrow> Throws e
              | Returns inputType \<Rightarrow>
                  (let outputInterfaceName = pascalName @ ''Output'';
                       interfaces' = interfaces
                         @ [''interface '' @ inputInterfaceName @ '' '' @ inputType]
                         @ [''interface '' @ outputInterfaceName @ '' {'' @ [newline]
                            @ ''  [key: string]: any;'' @ [newline] @ ''}''];
                       description =
                         (case toolDescription tool of
                            None \<Rightarrow> ''''
                          | Some text \<Rightarrow>
                              if text = [] then ''''
                              else ''  /**'' @ [newline] @ ''   * ''
                                   @ replaceNewlines ([newline] @ ''   * '') text
                                   @ [newline] @ ''   */'' @ [newline])
                   in Returns
                        (interfaces',
                         toolMethods
                           @ [description @ ''  '' @ safeName @ '': ('' @ [newline]
                              @ ''    input: '' @ inputInterfaceName @ [newline]
                              @ ''  ) => Promise<'' @ outputInterfaceName @ ''>;'']))))"

definition generateTypeScriptDefinitions ::
  "(string \<Rightarrow> string) \<Rightarrow> (string \<Rightarrow> string) \<Rightarrow> tool list \<Rightarrow> string completion" where
  "generateTypeScriptDefinitions toUpperCase toLowerCase tools =
     (case foldl (generateTool toUpperCase toLowerCase) (Returns ([], [])) tools of
        Throws e \<Rightarrow> Throws e
      | Returns (interfaces, toolMethods) \<Rightarrow>
          Returns (''// TypeScript definitions for MCP tools'' @ [newline]
                   @ join [newline, newline] interfaces
                   @ [newline, newline] @ ''declare const mcp: {'' @ [newline]
                   @ join [newline, newline] toolMethods
                   @ [newline] @ ''};''))"

text \<open>
  The same function as the running program executes it. \<open>const interfaces = []\<close> and
  \<open>const toolMethods = []\<close> create two arrays in the heap, the turns of the loop push onto
  them, and the template at the end reads them. A heap is the arrays of strings that
  exist when the function is invoked, left there by whatever ran before; an array is
  known by its index in the heap.
\<close>

type_synonym heap = "string list list"

text \<open>\<open>[]\<close>: a new, empty array.\<close>

definition newArray :: "heap \<Rightarrow> nat \<times> heap" where
  "newArray h = (length h, h @ [[]])"

text \<open>
  One turn of the loop on the arrays at \<open>interfaces\<close> and \<open>toolMethods\<close>: its pushes leave
  the two arrays with the contents that \<open>generateTool\<close> gives; when the translation of
  the input schema raises, nothing has been pushed in this turn.
\<close>

definition generateToolInPlace ::
  "(string \<Rightarrow> string) \<Rightarrow> (string \<Rightarrow> string) \<Rightarrow> nat \<Rightarrow> nat \<Rightarrow> heap \<Rightarrow> tool
   \<Rightarrow> heap completion" where
  "generateToolInPlace toUpperCase toLowerCase interfaces toolMethods h tool =
     (case generateTool toUpperCase toLowerCase
             (Returns (h ! interfaces, h ! toolMethods)) tool of
        Throws e \<Rightarrow> Throws e
      | Returns (interfaces', toolMethods') \<Rightarrow>
          Returns (h[interfaces := interfaces', toolMethods := toolMethods']))"

text \<open>The loop \<open>for (const tool of tools)\<close>: how it ends, and the heap it leaves.\<close>

fun generateLoop ::
  "(string \<Rightarrow> string) \<Rightarrow> (string \<Rightarrow> string) \<Rightarrow> nat \<Rightarrow> nat \<Rightarrow> tool list \<Rightarrow> heap
   \<Rightarrow> unit completion \<times> heap" where
  "generateLoop toUpperCase toLowerCase interfaces toolMethods [] h = (Returns (), h)"
| "generateLoop toUpperCase toLowerCase interfaces toolMethods (tool # tools) h =
     (case generateToolInPlace toUpperCase toLowerCase interfaces toolMethods h tool of
        Throws e \<Rightarrow> (Throws e, h)
      | Returns h' \<Rightarrow> generateLoop toUpperCase toLowerCase interfaces toolMethods tools h')"

text \<open>One invocation of \<open>generateTypeScriptDefinitions(tools)\<close> on the heap \<open>h\<close>.\<close>

definition invokeGenerateTypeScriptDefinitions ::
  "(string \<Rightarrow> string) \<Rightarrow> (string \<Rightarrow> string) \<Rightarrow> heap \<Rightarrow> tool list
   \<Rightarrow> string completion \<times> heap" where
  "invokeGenerateTypeScriptDefinitions toUpperCase toLowerCase h tools =
     (let (interfaces, h1) = newArray h;
          (toolMethods, h2) = newArray h1
      in case generateLoop toUpperCase toLowerCase interfaces toolMethods tools h2 of
           (Throws e, h3) \<Rightarrow> (Throws e, h3)
         | (Returns u, h3) \<Rightarrow>
             (Returns (''// TypeScript definitions for MCP tools'' @ [newline]
                       @ join [newline, newline] (h3 ! interfaces)
                       @ [newline, newline] @ ''declare const mcp: {'' @ [newline]
                       @ join [newline, newline] (h3 ! toolMethods)
                       @ [newline] @ ''};''),
              h3))"

text \<open>The \<open>case\<close> labels of the \<open>switch\<close> on \<open>schema.type\<close>.\<close>

definition recognizedTypes :: "string list" where
  "recognizedTypes =
     [''string'', ''number'', ''integer'', ''boolean'', ''null'', ''array'', ''object'']"

text \<open>Schemas and a tool used as concrete inputs below.\<close>

definition numberSchema :: schema where
  "numberSchema = Schema None None None (Some ''number'') None None None None None None"

definition enumSchema :: schema where
  "enumSchema =
     Schema None None None (Some ''string'') (Some [''a'', ''b'']) None None None None None"

definition enumUnderAnyOfSchema :: schema where
  "enumUnderAnyOfSchema =
     Schema (Some [Some numberSchema]) None None (Some ''string'') (Some [''a'', ''b''])
       None None None None None"

definition tupleSchema :: schema where
  "tupleSchema = Schema None None None (Some ''tuple'') None None None None None None"

definition pointSchema :: schema where
  "pointSchema =
     Schema None None None (Some ''object'') None None
       (Some [(''p'', Some enumSchema), (''q'', Some numberSchema)]) (Some [''p''])
       None None"

definition brokenPointSchema :: schema where
  "brokenPointSchema =
     Schema None None None (Some ''object'') None None
       (Some [(''p'', Some enumUnderAnyOfSchema)]) (Some [''p'']) None None"

definition nullPropertySchema :: schema where
  "nullPropertySchema =
     Schema None None None (Some ''object'') None None (Some [(''a'', None)]) None
       None None"

definition nullBranchSchema :: schema where
  "nullBranchSchema =
     Schema (Some [None, Some numberSchema]) None None None None None None None None None"

definition pingTool :: tool where
  "pingTool = \<lparr>toolName = ''ping-it'', toolDescription = None, inputSchema = None\<rparr>"

definition pointTool :: tool where
  "pointTool =
     \<lparr>toolName = ''get_point'', toolDescription = Some ''Gets a point'',
      inputSchema = Some pointSchema\<rparr>"

text \<open>A heap in which an earlier invocation has left its two arrays.\<close>

definition usedHeap :: heap where
  "usedHeap = [[''interface Old {}''], [''  old: () => void;'']]"

text \<open>
  The schema trees in which every value of a \<open>properties\<close> object is a schema object, at
  every depth. A \<open>null\<close> is allowed in the other places that hold a schema.
\<close>

function propertiesHaveSchemas :: "schema \<Rightarrow> bool" where
  "propertiesHaveSchemas sc \<longleftrightarrow>
     (\<forall>b \<in> set (case anyOf sc of Some bs \<Rightarrow> bs | None \<Rightarrow> []).
        case b of Some s \<Rightarrow> propertiesHaveSchemas s | None \<Rightarrow> True)
     \<and> (\<forall>b \<in> set (case oneOf sc of Some bs \<Rightarrow> bs | None \<Rightarrow> []).
          case b of Some s \<Rightarrow> propertiesHaveSchemas s | None \<Rightarrow> True)
     \<and> (\<forall>b \<in> set (case allOf sc of Some bs \<Rightarrow> bs | None \<Rightarrow> []).
          case b of Some s \<Rightarrow> propertiesHaveSchemas s | None \<Rightarrow> True)
     \<and> (case items sc of Some s \<Rightarrow> propertiesHaveSchemas s | None \<Rightarrow> True)
     \<and> (\<forall>entry \<in> set (case properties sc of Some es \<Rightarrow> es | None \<Rightarrow> []).
          case snd entry of Some s \<Rightarrow> propertiesHaveSchemas s | None \<Rightarrow> False)
     \<and> (case additionalProperties sc of
          Some (Inr s) \<Rightarrow> propertiesHaveSchemas s
        | _ \<Rightarrow> True)"
  by pat_completeness auto
termination
proof -
  have in_list: "size s < size sc"
    if "Some s \<in> set bs" "anyOf sc = Some bs \<or> oneOf sc = Some bs \<or> allOf sc = Some bs"
    for s :: schema and bs sc
  proof -
    from that(1) have "size_option size (Some s) \<le> size_list (size_option size) bs"
      by (rule size_list_estimation') simp
    with that(2) show ?thesis by (cases sc) auto
  qed
  have in_items: "size s < size sc" if "items sc = Some s" for s sc :: schema
    using that by (cases sc) simp
  have in_props: "size s < size sc"
    if "(k, Some s) \<in> set es" "properties sc = Some es" for k :: string and s es sc
  proof -
    from that(1)
    have "size_prod (\<lambda>x. 0) (size_option size) (k, Some s)
            \<le> size_list (size_prod (\<lambda>x. 0) (size_option size)) es"
      by (rule size_list_estimation') simp
    with that(2) show ?thesis by (cases sc) simp
  qed
  have in_additional: "size s < size sc"
    if "additionalProperties sc = Some (Inr s)" for s sc :: schema
    using that by (cases sc) simp
  show ?thesis
    by (relation "measure size")
      (auto simp: in_list in_items in_additional in_props [OF _ sym] split: option.splits)
qed

section \<open>validator.js: the usage check\<close>

text \<open>
  The regular expression \<open>/mcp\.(\w+)\(/\<close> tried at the start of \<open>s\<close>: the literal \<open>mcp.\<close>,
  then the longest run of word characters (\<open>\w+\<close> is greedy, and giving back characters
  never helps, since the character after a shorter run is a word character and not the
  parenthesis), which must not be empty, then \<open>(\<close>. The result is the captured group and
  the text after the match.
\<close>

definition matchToolCall :: "string \<Rightarrow> (string \<times> string) option" where
  "matchToolCall s =
     (if take 4 s = ''mcp.'' then
        (let word = takeWhile isWordChar (drop 4 s);
             rest = dropWhile isWordChar (drop 4 s)
         in if word \<noteq> [] \<and> take 1 rest = ''('' then Some (word, drop 1 rest) else None)
      else None)"

text \<open>
  The loop \<open>while ((match = toolPattern.exec(code)) !== null)\<close> with the flag \<open>g\<close>: the
  leftmost match from \<open>lastIndex\<close> on, then the search goes on after that match. The
  argument is the text from \<open>lastIndex\<close> on; the result lists \<open>match[1]\<close> of every turn.
\<close>

function toolPatternExecAll :: "string \<Rightarrow> string list" where
  "toolPatternExecAll code =
     (if code = [] then []
      else (case matchToolCall code of
              Some (tool, rest) \<Rightarrow> tool # toolPatternExecAll rest
            | None \<Rightarrow> toolPatternExecAll (tl code)))"
  by pat_completeness auto
termination
proof (relation "measure length", goal_cases)
  case 1
  show ?case by simp
next
  case (2 code)
  then show ?case by simp
next
  case (3 code m tool rest)
  then have "rest = drop 1 (dropWhile isWordChar (drop 4 code))"
    by (auto simp: matchToolCall_def Let_def split: if_splits)
  moreover have "length (dropWhile isWordChar (drop 4 code)) \<le> length code"
    using length_dropWhile_le [of isWordChar "drop 4 code"] by simp
  ultimately show ?case using 3 by (cases code) auto
qed

text \<open>\<open>Set.prototype.add\<close> on a set kept in insertion order.\<close>

definition setAdd :: "'a list \<Rightarrow> 'a \<Rightarrow> 'a list" where
  "setAdd xs x = (if x \<in> set xs then xs else xs @ [x])"

definition usedTools :: "string \<Rightarrow> string list" where
  "usedTools code = foldl setAdd [] (toolPatternExecAll code)"

definition invalidTools :: "string \<Rightarrow> string list \<Rightarrow> string list" where
  "invalidTools code availableTools =
     filter (\<lambda>tool. tool \<notin> set availableTools) (usedTools code)"

record usage_result =
  usageSuccess :: bool
  usageError :: "string option"

definition validateMCPUsage :: "string \<Rightarrow> string list \<Rightarrow> usage_result" where
  "validateMCPUsage code availableTools =
     (if length (invalidTools code availableTools) > 0 then
        \<lparr>usageSuccess = False,
         usageError = Some (''Code uses undefined MCP tools: ''
                            @ join '', '' (invalidTools code availableTools))\<rparr>
      else \<lparr>usageSuccess = True, usageError = None\<rparr>)"

text \<open>
  What the claim calls a call of the form \<open>mcp.<identifier>(\<close>: the text \<open>mcp.\<close>, a
  non-empty identifier of letters, digits and underscores, and an opening parenthesis,
  somewhere in the code.
\<close>

definition callsTool :: "string \<Rightarrow> string \<Rightarrow> bool" where
  "callsTool code ident \<longleftrightarrow>
     ident \<noteq> [] \<and> (\<forall>c \<in> set ident. isWordChar c)
     \<and> (\<exists>before after. code = before @ ''mcp.'' @ ident @ ''('' @ after)"

section \<open>MCPCodeMode.executeCode\<close>

text \<open>
  The result object of an execution, shared by the sandboxes and by \<open>executeCode\<close>; a key
  that an object does not have is \<open>None\<close>.
\<close>

record execution_result =
  success :: bool
  error :: "string option"
  "output" :: "string list"
  executionTimeMs :: "nat option"
  validationErrors :: "string option"
  rawError :: "string option"
  resultSourceMap :: "string option"

text \<open>
  The result of \<open>Validator.validate\<close>, which hands the code to the TypeScript compiler:
  \<open>validationOutput\<close> is read on success, \<open>formattedErrors\<close> on failure.
\<close>

record validation_result =
  validationSuccess :: bool
  validationOutput :: string
  formattedErrors :: string
  sourceMap :: "string option"

record codemode =
  connected :: bool
  validateTypes :: bool
  typeDefinitions :: string
  availableTools :: "string list"

definition failure :: "string option \<Rightarrow> execution_result" where
  "failure e =
     \<lparr>success = False, error = e, output = [], executionTimeMs = None,
      validationErrors = None, rawError = None, resultSourceMap = None\<rparr>"

text \<open>
  The block \<open>if (this.validateTypes && !options.skipValidation)\<close>: either the result that
  \<open>executeCode\<close> returns at once, or the code to run and the validation result.
\<close>

definition validationGate ::
  "(string \<Rightarrow> string \<Rightarrow> validation_result) \<Rightarrow> codemode \<Rightarrow> string \<Rightarrow> bool
   \<Rightarrow> execution_result + string \<times> validation_result option" where
  "validationGate validate cm code skipValidation =
     (if validateTypes cm \<and> \<not> skipValidation then
        (let validationResult = validate code (typeDefinitions cm) in
         if \<not> validationSuccess validationResult then
           Inl ((failure (Some ''TypeScript validation failed''))
                  \<lparr>validationErrors := Some (formattedErrors validationResult)\<rparr>)
         else
           (let processedCode = validationOutput validationResult;
                mcpValidation = validateMCPUsage processedCode (availableTools cm)
            in if \<not> usageSuccess mcpValidation then Inl (failure (usageError mcpValidation))
               else Inr (processedCode, Some validationResult)))
      else Inr (code, None))"

text \<open>
  \<open>executeCode(code, options)\<close>. The parameters are \<open>Validator.validate\<close>, the sandbox's
  \<open>execute\<close> on the code it is given, and the error mapper's text for a raised error. The
  second component of the result lists the codes \<open>sandbox.execute\<close> was invoked on during
  the call.
\<close>

definition executeCode ::
  "(string \<Rightarrow> string \<Rightarrow> validation_result) \<Rightarrow> (string \<Rightarrow> execution_result completion)
   \<Rightarrow> (string \<Rightarrow> string \<Rightarrow> string \<Rightarrow> string) \<Rightarrow> codemode \<Rightarrow> string \<Rightarrow> bool
   \<Rightarrow> execution_result completion \<times> string list" where
  "executeCode validate sandboxExecute describeError cm code skipValidation =
     (if \<not> connected cm then
        (Throws ''Not connected to MCP server. Call connect() first.'', [])
      else
        (case validationGate validate cm code skipValidation of
           Inl early \<Rightarrow> (Returns early, [])
         | Inr (processedCode, validationResult) \<Rightarrow>
             (case sandboxExecute processedCode of
                Throws raised \<Rightarrow>
                  (Returns ((failure (Some (describeError raised code (typeDefinitions cm))))
                              \<lparr>rawError := Some raised\<rparr>),
                   [processedCode])
              | Returns result \<Rightarrow>
                  (Returns
                     (case validationResult of
                        Some v \<Rightarrow>
                          (case sourceMap v of
                             Some m \<Rightarrow> if m \<noteq> [] then result\<lparr>resultSourceMap := Some m\<rparr>
                                       else result
                           | None \<Rightarrow> result)
                      | None \<Rightarrow> result),
                   [processedCode]))))"

text \<open>A connected instance, a validator and a sandbox used as concrete inputs below.\<close>

definition demoMode :: codemode where
  "demoMode =
     \<lparr>connected = True, validateTypes = True, typeDefinitions = '''',
      availableTools = [''bar'']\<rparr>"

definition passValidate :: "string \<Rightarrow> string \<Rightarrow> validation_result" where
  "passValidate code types =
     \<lparr>validationSuccess = True, validationOutput = code, formattedErrors = '''',
      sourceMap = None\<rparr>"

definition okSandbox :: "string \<Rightarrow> execution_result completion" where
  "okSandbox code =
     Returns \<lparr>success = True, error = None, output = [], executionTimeMs = Some 1,
       validationErrors = None, rawError = None, resultSourceMap = None\<rparr>"

section \<open>isolated-sandbox.js\<close>

text \<open>
  A value that the host callback \<open>_logSync\<close> receives: \<open>null\<close>, \<open>undefined\<close>, an object
  (\<open>typeof\<close> is \<open>'object'\<close>), a string, or another primitive (a number, a boolean, a
  bigint).
\<close>

datatype ('o, 'p) jsvalue = JNull | JUndefined | JObject 'o | JString string | JOther 'p

text \<open>
  The callback of \<open>args.map\<close> in \<open>_logSync\<close>, with its tests in their order. \<open>stringify\<close>
  is \<open>JSON.stringify\<close> on an object, \<open>None\<close> when it raises; \<open>toString\<close> is \<open>String\<close> on
  the primitives that are not strings.
\<close>

fun formatArg :: "('o \<Rightarrow> string option) \<Rightarrow> ('p \<Rightarrow> string) \<Rightarrow> ('o, 'p) jsvalue \<Rightarrow> string" where
  "formatArg stringify toString JNull = ''null''"
| "formatArg stringify toString JUndefined = ''undefined''"
| "formatArg stringify toString (JObject obj) =
     (case stringify obj of Some json \<Rightarrow> json | None \<Rightarrow> ''[Object]'')"
| "formatArg stringify toString (JString s) = s"
| "formatArg stringify toString (JOther p) = toString p"

text \<open>
  An argument of a call inside the context. \<open>_logSync\<close> is a function of the host, and the
  isolation layer copies the arguments of a call of it out of the context: a value that
  it can copy arrives at the host as that value; a function, a symbol, a proxy or an
  object that holds one of them cannot be copied, and the call raises inside the context
  without reaching the host.
\<close>

datatype ('o, 'p) argument = Copied "('o, 'p) jsvalue" | NotTransferable

fun transferArgs :: "('o, 'p) argument list \<Rightarrow> ('o, 'p) jsvalue list option" where
  "transferArgs [] = Some []"
| "transferArgs (NotTransferable # rest) = None"
| "transferArgs (Copied v # rest) =
     (case transferArgs rest of None \<Rightarrow> None | Some vs \<Rightarrow> Some (v # vs))"

text \<open>
  The sandbox object. An isolate is known by the memory limit it was created with, a
  context by its isolate; \<open>None\<close> is \<open>null\<close>.
\<close>

datatype isolate = Isolate nat

datatype context_handle = Context isolate

record isolated_sandbox =
  memoryLimit :: nat
  timeout :: nat
  isolate :: "isolate option"
  "context" :: "context_handle option"
  logs :: "string list"

definition logSync ::
  "('o \<Rightarrow> string option) \<Rightarrow> ('p \<Rightarrow> string) \<Rightarrow> ('o, 'p) jsvalue list
   \<Rightarrow> isolated_sandbox \<Rightarrow> isolated_sandbox" where
  "logSync stringify toString args s =
     s\<lparr>logs := logs s @ [join '' '' (map (formatArg stringify toString) args)]\<rparr>"

text \<open>The three entry points of \<open>global.console\<close> inside the context.\<close>

datatype console_method = ConsoleLog | ConsoleError | ConsoleWarn

text \<open>
  A call of \<open>_logSync\<close> from inside the context: \<open>None\<close> when the call raises there, else
  the sandbox after the host callback has run on the copied arguments.
\<close>

definition callLogSync ::
  "('o \<Rightarrow> string option) \<Rightarrow> ('p \<Rightarrow> string) \<Rightarrow> ('o, 'p) argument list
   \<Rightarrow> isolated_sandbox \<Rightarrow> isolated_sandbox option" where
  "callLogSync stringify toString args s =
     (case transferArgs args of
        None \<Rightarrow> None
      | Some values \<Rightarrow> Some (logSync stringify toString values s))"

fun console ::
  "('o \<Rightarrow> string option) \<Rightarrow> ('p \<Rightarrow> string) \<Rightarrow> console_method \<Rightarrow> ('o, 'p) argument list
   \<Rightarrow> isolated_sandbox \<Rightarrow> isolated_sandbox option" where
  "console stringify toString ConsoleLog args s = callLogSync stringify toString args s"
| "console stringify toString ConsoleError args s =
     callLogSync stringify toString (Copied (JString ''ERROR:'') # args) s"
| "console stringify toString ConsoleWarn args s =
     callLogSync stringify toString (Copied (JString ''WARN:'') # args) s"

definition initialize :: "isolated_sandbox \<Rightarrow> isolated_sandbox" where
  "initialize s =
     s\<lparr>isolate := Some (Isolate (memoryLimit s)),
       context := Some (Context (Isolate (memoryLimit s))),
       logs := []\<rparr>"

text \<open>
  What the isolation layer does with one \<open>context.eval\<close>: the console calls the code
  makes, whether the evaluation raises (\<open>thrown\<close> is then the \<open>message\<close> of the raised
  value, \<open>None\<close> when it has none), and the time it takes. A console call that raises
  inside the context leaves \<open>logs\<close> as it is; whether the code catches what it raised
  shows in \<open>thrown\<close>.
\<close>

record ('o, 'p) evaluation =
  consoleCalls :: "(console_method \<times> ('o, 'p) argument list) list"
  thrown :: "string option option"
  elapsed :: nat

text \<open>What \<open>execute\<close> does to the isolation layer, in order.\<close>

datatype effect = Initialize | SetupMCPProxy | Eval string

text \<open>
  \<open>execute(code, mcpHandler)\<close>; \<open>mcpHandler\<close> says whether a handler is given. The result
  is how the call ends, the sandbox after it, and its effects. Setting up the proxy is
  taken to succeed.
\<close>

definition execute ::
  "('o \<Rightarrow> string option) \<Rightarrow> ('p \<Rightarrow> string) \<Rightarrow> isolated_sandbox \<Rightarrow> string \<Rightarrow> bool
   \<Rightarrow> ('o, 'p) evaluation
   \<Rightarrow> execution_result completion \<times> isolated_sandbox \<times> effect list" where
  "execute stringify toString s code mcpHandler run =
     (let uninitialized = (isolate s = None \<or> context s = None);
          s1 = (if uninitialized then initialize s else s);
          s2 = s1\<lparr>logs := []\<rparr>;
          effects = (if uninitialized then [Initialize] else [])
                    @ (if mcpHandler then [SetupMCPProxy] else []) @ [Eval code];
          s3 = foldl (\<lambda>st (m, args).
                        case console stringify toString m args st of
                          Some st' \<Rightarrow> st'
                        | None \<Rightarrow> st)
                 s2 (consoleCalls run);
          failed = (\<lambda>e. (failure (Some e))
                      \<lparr>output := logs s3, executionTimeMs := Some (elapsed run)\<rparr>)
      in case thrown run of
           None \<Rightarrow>
             (Returns \<lparr>success = True, error = None, output = logs s3,
                       executionTimeMs = Some (elapsed run), validationErrors = None,
                       rawError = None, resultSourceMap = None\<rparr>,
              s3, effects)
         | Some None \<Rightarrow>
             (Throws ''Cannot read properties of undefined (reading 'includes')'', s3, effects)
         | Some (Some raised) \<Rightarrow>
             if includesStr raised ''Script execution timed out'' then
               (Returns (failed (''Execution timeout ('' @ showNat (timeout s)
                                  @ ''ms exceeded)'')),
                s3, effects)
             else if includesStr raised ''Isolate was disposed'' then
               (Returns (failed (''Memory limit exceeded ('' @ showNat (memoryLimit s)
                                  @ ''MB)'')),
                s3\<lparr>isolate := None, context := None\<rparr>, effects)
             else (Returns (failed raised), s3, effects))"

text \<open>A sandbox and two evaluations used as concrete inputs below.\<close>

definition freshSandbox :: isolated_sandbox where
  "freshSandbox =
     \<lparr>memoryLimit = 128, timeout = 5000, isolate = None, context = None, logs = []\<rparr>"

definition memoryKill :: "(unit, unit) evaluation" where
  "memoryKill =
     \<lparr>consoleCalls = [(ConsoleLog, [Copied (JString ''allocating''), Copied JNull])],
      thrown = Some (Some ''Isolate was disposed during execution due to memory limit''),
      elapsed = 7\<rparr>"

definition quietRun :: "(unit, unit) evaluation" where
  "quietRun = \<lparr>consoleCalls = [], thrown = None, elapsed = 1\<rparr>"

text \<open>
  The evaluation of
  \<open>console.log('before'); try { console.log('f is', () => 1) } catch (e) {}\<close>.
\<close>

definition logsFunction :: "(unit, unit) evaluation" where
  "logsFunction =
     \<lparr>consoleCalls = [(ConsoleLog, [Copied (JString ''before'')]),
                      (ConsoleLog, [Copied (JString ''f is''), NotTransferable])],
      thrown = None, elapsed = 1\<rparr>"

section \<open>error-mapper.js\<close>

text \<open>A raised \<open>Error\<close> object, by the two properties \<open>isRecoverable\<close> reads.\<close>

record js_error =
  errorName :: string
  errorMessage :: string

definition isRecoverable :: "js_error \<Rightarrow> bool" where
  "isRecoverable e =
     (if errorName e = ''SyntaxError'' then False
      else if includesStr (errorMessage e) ''memory'' \<or> includesStr (errorMessage e) ''timeout''
        then True
      else if errorName e = ''TypeError'' \<or> errorName e = ''ReferenceError'' then True
      else False)"

text \<open>Errors used as concrete inputs below.\<close>

definition sandboxMemoryError :: js_error where
  "sandboxMemoryError =
     \<lparr>errorName = ''Error'', errorMessage = ''Memory limit exceeded (128MB)''\<rparr>"

definition notAFunctionError :: js_error where
  "notAFunctionError =
     \<lparr>errorName = ''TypeError'', errorMessage = ''mcp.search is not a function''\<rparr>"

section \<open>sandbox.js: the tool bridge of the worker thread\<close>

text \<open>
  The message \<open>{type: 'mcp-result', method, result, error}\<close> that the host posts to the
  worker when a handler invocation has ended.
\<close>

record 'v mcp_result =
  msgMethod :: string
  msgResult :: "'v option"
  msgError :: "string option"

text \<open>How the promise of a pending call is settled.\<close>

datatype 'v settlement = Resolved "'v option" | Rejected string

text \<open>
  The worker's side: the handlers registered on \<open>parentPort\<close>, each with the pending call
  it belongs to and the \<open>prop\<close> it closes over; the calls settled so far, in order; and
  the \<open>mcp-call\<close> messages posted to the host.
\<close>

record 'v worker =
  listeners :: "(nat \<times> string) list"
  settled :: "(nat \<times> 'v settlement) list"
  posted :: "(string \<times> 'v) list"

text \<open>\<open>mcp[prop](input)\<close>, as the pending call number \<open>call\<close>.\<close>

definition mcpCall :: "nat \<Rightarrow> string \<Rightarrow> 'v \<Rightarrow> 'v worker \<Rightarrow> 'v worker" where
  "mcpCall call prop input w =
     w\<lparr>posted := posted w @ [(prop, input)], listeners := listeners w @ [(call, prop)]\<rparr>"

text \<open>
  The worker receives a message: every registered handler is run on it; a handler whose
  \<open>prop\<close> is the message's \<open>method\<close> removes itself and settles its call.
\<close>

definition deliver :: "'v mcp_result \<Rightarrow> 'v worker \<Rightarrow> 'v worker" where
  "deliver msg w =
     (let fired = filter (\<lambda>(call, prop). msgMethod msg = prop) (listeners w);
          settlement =
            (case msgError msg of
               Some e \<Rightarrow> if e \<noteq> [] then Rejected e else Resolved (msgResult msg)
             | None \<Rightarrow> Resolved (msgResult msg))
      in w\<lparr>listeners := filter (\<lambda>(call, prop). msgMethod msg \<noteq> prop) (listeners w),
           settled := settled w @ map (\<lambda>(call, prop). (call, settlement)) fired\<rparr>)"

text \<open>The host's handler of an \<open>mcp-call\<close> message, once \<open>mcpHandler\<close> has ended.\<close>

definition hostReply ::
  "(string \<Rightarrow> 'v \<Rightarrow> 'v completion) \<Rightarrow> string \<times> 'v \<Rightarrow> 'v mcp_result" where
  "hostReply mcpHandler call =
     (case mcpHandler (fst call) (snd call) of
        Returns v \<Rightarrow> \<lparr>msgMethod = fst call, msgResult = Some v, msgError = None\<rparr>
      | Throws raised \<Rightarrow> \<lparr>msgMethod = fst call, msgResult = None, msgError = Some raised\<rparr>)"

text \<open>
  Concurrent calls: the code issues \<open>calls\<close> without awaiting any of them (as under
  \<open>Promise.all\<close>), and the host's handler invocations end in the order
  \<open>completionOrder\<close>, each posting its reply to the worker.
\<close>

definition concurrentCalls ::
  "(string \<Rightarrow> 'v \<Rightarrow> 'v completion) \<Rightarrow> (string \<times> 'v) list \<Rightarrow> nat list \<Rightarrow> 'v worker" where
  "concurrentCalls mcpHandler calls completionOrder =
     (let issued = foldl (\<lambda>w (call, (prop, input)). mcpCall call prop input w)
                     \<lparr>listeners = [], settled = [], posted = []\<rparr>
                     (zip [0 ..< length calls] calls)
      in foldl (\<lambda>w i. if i < length (posted issued)
                        then deliver (hostReply mcpHandler (posted issued ! i)) w else w)
           issued completionOrder)"

text \<open>A handler that returns its input.\<close>

definition echoHandler :: "string \<Rightarrow> nat \<Rightarrow> nat completion" where
  "echoHandler method input = Returns input"

section \<open>sandbox.js: completion of an execution\<close>





datatype worker_message = McpCallMessage string | Complete "string list"


text \<open>
  The host's side of \<open>execute\<close>: the events it handles and the state its handlers share.
  \<open>promise\<close> is the result the returned promise is resolved with; a promise keeps its
  first resolution.
\<close>

datatype worker_event =
    TimeoutFired
  | MessageEvent worker_message
  | ErrorEvent string
  | ExitEvent nat

record host =
  timeoutMs :: nat
  completed :: bool
  timerArmed :: bool
  terminated :: bool
  promise :: "execution_result option"


definition resolve :: "execution_result \<Rightarrow> host \<Rightarrow> host" where
  "resolve r h = (case promise h of None \<Rightarrow> h\<lparr>promise := Some r\<rparr> | Some _ \<Rightarrow> h)"

definition workerResult ::
  "bool \<Rightarrow> string list \<Rightarrow> string option \<Rightarrow> nat \<Rightarrow> execution_result" where
  "workerResult ok lines e ms =
     \<lparr>success = ok, error = e, output = lines, executionTimeMs = Some ms,
      validationErrors = None, rawError = None, resultSourceMap = None\<rparr>"

text \<open>One event at the host; \<open>now\<close> is \<open>Date.now() - startTime\<close>.\<close>

fun hostHandle :: "nat \<Rightarrow> worker_event \<Rightarrow> host \<Rightarrow> host" where
  "hostHandle now TimeoutFired h =
     (if timerArmed h then
        (if \<not> completed h then
           resolve (workerResult False [] (Some ''Execution timeout'') (timeoutMs h))
             (h\<lparr>terminated := True, timerArmed := False\<rparr>)
         else h\<lparr>timerArmed := False\<rparr>)
      else h)"
| "hostHandle now (MessageEvent (McpCallMessage method)) h = h"
| "hostHandle now (MessageEvent (Complete lines)) h =
     resolve (workerResult True lines None now)
       (h\<lparr>completed := True, timerArmed := False, terminated := True\<rparr>)"
| "hostHandle now (ErrorEvent raised) h =
     resolve (workerResult False [] (Some raised) now)
       (h\<lparr>completed := True, timerArmed := False\<rparr>)"
| "hostHandle now (ExitEvent code) h =
     (if \<not> completed h then
        (let h' = h\<lparr>completed := True, timerArmed := False\<rparr>
         in if code \<noteq> 0
            then resolve (workerResult False []
                            (Some (''Worker exited with code '' @ showNat code)) now) h'
            else h')
      else h)"

text \<open>
  The host's event loop: the handlers run one after the other, each to its end, in the
  order in which the events are taken from the queue.
\<close>

definition hostRun :: "(nat \<times> worker_event) list \<Rightarrow> host \<Rightarrow> host" where
  "hostRun events h = foldl (\<lambda>st (now, event). hostHandle now event st) h events"

chapter \<open>Verified properties\<close>

section \<open>Properties of the interface generator\<close>

declare jsonSchemaToTypeScript.simps(2) [simp del]

declare propertiesHaveSchemas.simps [simp del]

lemma isWordChar_underscore: "isWordChar CHR ''_''"
  by (simp add: isWordChar_def)

text \<open>
  C6. \<open>sanitizeName\<close> keeps the length of the name; at every position it keeps a letter, a
  digit or an underscore and writes an underscore over any other character; the tool name
  \<open>search-music!\<close> becomes \<open>search_music_\<close>.
\<close>

theorem sanitizeName_replaces_exactly:
  "length (sanitizeName name) = length name
   \<and> (\<forall>i < length name.
        sanitizeName name ! i = (if isWordChar (name ! i) then name ! i else CHR ''_''))
   \<and> sanitizeName ''search-music!'' = ''search_music_''"
  by (simp add: sanitizeName_def isWordChar_def lowerLetters_def upperLetters_def digits_def)

theorem sanitizeName_replaces_exactly_witness:
  "length (sanitizeName ''a b'') = 3
   \<and> sanitizeName ''a b'' ! 0 = CHR ''a''
   \<and> sanitizeName ''a b'' ! 1 = CHR ''_''
   \<and> sanitizeName ''a b'' ! 2 = CHR ''b''"
  using sanitizeName_replaces_exactly [of "''a b''"]
  by (simp add: isWordChar_def lowerLetters_def upperLetters_def digits_def)

lemma generateTypeScriptDefinitions_pingTool:
  "generateTypeScriptDefinitions asciiToUpperCase asciiToLowerCase [pingTool] =
     Returns
       (''// TypeScript definitions for MCP tools'' @ [newline]
        @ ''interface PingItInput {'' @ [newline] @ [newline] @ ''}'' @ [newline, newline]
        @ ''interface PingItOutput {'' @ [newline]
        @ ''  [key: string]: any;'' @ [newline] @ ''}'' @ [newline, newline]
        @ ''declare const mcp: {'' @ [newline]
        @ ''  ping_it: ('' @ [newline] @ ''    input: PingItInput'' @ [newline]
        @ ''  ) => Promise<PingItOutput>;'' @ [newline] @ ''};'')"
  by (simp add: generateTypeScriptDefinitions_def generateTool_def pingTool_def
      emptyObjectSchema_def jsonSchemaToTypeScript.simps(2) sanitizeName_def toPascalCase_def
      asciiToUpperCase_def asciiToLowerCase_def isWordChar_def lowerLetters_def
      upperLetters_def digits_def)

text \<open>Once a turn of the loop has raised, the later turns do not run.\<close>

lemma foldl_generateTool_Throws:
  "foldl (generateTool toUpperCase toLowerCase) (Throws e) tools = Throws e"
  by (induction tools) (simp_all add: generateTool_def)

text \<open>
  The loop on two different arrays of the heap ends as the loop on their contents does,
  leaves in the two arrays what that loop returns, and leaves every other array as it
  was.
\<close>

lemma generateLoop_foldl:
  assumes "interfaces < length h" and "toolMethods < length h" and "interfaces \<noteq> toolMethods"
  shows "\<exists>h'. generateLoop toUpperCase toLowerCase interfaces toolMethods tools h
                = (case foldl (generateTool toUpperCase toLowerCase)
                          (Returns (h ! interfaces, h ! toolMethods)) tools of
                     Throws e \<Rightarrow> Throws e
                   | Returns contents \<Rightarrow> Returns (),
                   h')
              \<and> length h' = length h
              \<and> (\<forall>a. a \<noteq> interfaces \<and> a \<noteq> toolMethods \<longrightarrow> h' ! a = h ! a)
              \<and> (\<forall>contents.
                    foldl (generateTool toUpperCase toLowerCase)
                      (Returns (h ! interfaces, h ! toolMethods)) tools = Returns contents
                    \<longrightarrow> contents = (h' ! interfaces, h' ! toolMethods))"
  using assms
proof (induction tools arbitrary: h)
  case Nil
  show ?case by simp
next
  case (Cons tool tools)
  let ?turn = "generateTool toUpperCase toLowerCase
                 (Returns (h ! interfaces, h ! toolMethods)) tool"
  show ?case
  proof (cases ?turn)
    case (Throws e)
    then show ?thesis
      by (simp add: generateToolInPlace_def foldl_generateTool_Throws)
  next
    case (Returns contents)
    obtain interfaces' toolMethods' where contents: "contents = (interfaces', toolMethods')"
      by (cases contents)
    let ?h = "h[interfaces := interfaces', toolMethods := toolMethods']"
    have sizes: "interfaces < length ?h" "toolMethods < length ?h"
      using Cons.prems by simp_all
    have cells: "?h ! interfaces = interfaces'" "?h ! toolMethods = toolMethods'"
      using Cons.prems by simp_all
    from Cons.IH [OF sizes Cons.prems(3)] obtain h'
      where loop: "generateLoop toUpperCase toLowerCase interfaces toolMethods tools ?h
                = (case foldl (generateTool toUpperCase toLowerCase)
                          (Returns (?h ! interfaces, ?h ! toolMethods)) tools of
                     Throws e \<Rightarrow> Throws e
                   | Returns contents \<Rightarrow> Returns (),
                   h')"
        and size: "length h' = length ?h"
        and others: "\<forall>a. a \<noteq> interfaces \<and> a \<noteq> toolMethods \<longrightarrow> h' ! a = ?h ! a"
        and arrays: "\<forall>contents.
                    foldl (generateTool toUpperCase toLowerCase)
                      (Returns (?h ! interfaces, ?h ! toolMethods)) tools = Returns contents
                    \<longrightarrow> contents = (h' ! interfaces, h' ! toolMethods)"
      by blast
    have "generateLoop toUpperCase toLowerCase interfaces toolMethods (tool # tools) h
                = (case foldl (generateTool toUpperCase toLowerCase)
                          (Returns (h ! interfaces, h ! toolMethods)) (tool # tools) of
                     Throws e \<Rightarrow> Throws e
                   | Returns contents \<Rightarrow> Returns (),
                   h')"
      using loop by (simp add: generateToolInPlace_def Returns contents cells)
    moreover have "length h' = length h"
      using size by simp
    moreover have "\<forall>a. a \<noteq> interfaces \<and> a \<noteq> toolMethods \<longrightarrow> h' ! a = h ! a"
      using others by simp
    moreover have "\<forall>contents.
                    foldl (generateTool toUpperCase toLowerCase)
                      (Returns (h ! interfaces, h ! toolMethods)) (tool # tools)
                      = Returns contents
                    \<longrightarrow> contents = (h' ! interfaces, h' ! toolMethods)"
      using arrays by (simp add: Returns contents cells)
    ultimately show ?thesis by blast
  qed
qed

text \<open>
  An invocation on any heap ends as \<open>generateTypeScriptDefinitions\<close> says, and the arrays
  that existed before it are the same after it.
\<close>

lemma invokeGenerateTypeScriptDefinitions_text:
  "fst (invokeGenerateTypeScriptDefinitions toUpperCase toLowerCase h tools)
     = generateTypeScriptDefinitions toUpperCase toLowerCase tools
   \<and> take (length h) (snd (invokeGenerateTypeScriptDefinitions toUpperCase toLowerCase h tools))
     = h"
proof -
  let ?h = "h @ [[], []]"
  let ?interfaces = "length h"
  let ?toolMethods = "Suc (length h)"
  have start: "?h ! ?interfaces = []" "?h ! ?toolMethods = []"
    by (simp_all add: nth_append)
  from generateLoop_foldl [of ?interfaces ?h ?toolMethods toUpperCase toLowerCase tools]
  obtain h'
    where loop: "generateLoop toUpperCase toLowerCase ?interfaces ?toolMethods tools ?h
                = (case foldl (generateTool toUpperCase toLowerCase) (Returns ([], [])) tools of
                     Throws e \<Rightarrow> Throws e
                   | Returns contents \<Rightarrow> Returns (),
                   h')"
      and size: "length h' = length ?h"
      and others: "\<forall>a. a \<noteq> ?interfaces \<and> a \<noteq> ?toolMethods \<longrightarrow> h' ! a = ?h ! a"
      and arrays: "\<forall>contents.
                    foldl (generateTool toUpperCase toLowerCase) (Returns ([], [])) tools
                      = Returns contents
                    \<longrightarrow> contents = (h' ! ?interfaces, h' ! ?toolMethods)"
    by (auto simp: start)
  have invoked: "invokeGenerateTypeScriptDefinitions toUpperCase toLowerCase h tools
      = (case generateLoop toUpperCase toLowerCase ?interfaces ?toolMethods tools ?h of
           (Throws e, h3) \<Rightarrow> (Throws e, h3)
         | (Returns u, h3) \<Rightarrow>
             (Returns (''// TypeScript definitions for MCP tools'' @ [newline]
                       @ join [newline, newline] (h3 ! ?interfaces)
                       @ [newline, newline] @ ''declare const mcp: {'' @ [newline]
                       @ join [newline, newline] (h3 ! ?toolMethods)
                       @ [newline] @ ''};''),
              h3))"
    by (simp add: invokeGenerateTypeScriptDefinitions_def newArray_def
        cong del: completion.case_cong_weak)
  have kept: "take (length h) h' = h"
  proof (rule nth_equalityI)
    show "length (take (length h) h') = length h"
      using size by simp
  next
    fix a
    assume "a < length (take (length h) h')"
    then have "a < length h" by simp
    with others show "take (length h) h' ! a = h ! a"
      by (simp add: nth_append)
  qed
  show ?thesis
  proof (cases "foldl (generateTool toUpperCase toLowerCase) (Returns ([], [])) tools")
    case (Throws e)
    with invoked loop kept show ?thesis
      by (simp add: generateTypeScriptDefinitions_def)
  next
    case (Returns contents)
    with arrays have "contents = (h' ! ?interfaces, h' ! ?toolMethods)" by simp
    with invoked loop kept Returns show ?thesis
      by (simp add: generateTypeScriptDefinitions_def)
  qed
qed

text \<open>
  C4. Two invocations of the generator on equal sequences of tool descriptors end the
  same way, with the same interface text (or the same error), whatever the heaps they
  start from: the arrays that the function writes and reads are the two that this
  invocation has created, so nothing that an earlier invocation (or anything else) has
  left behind reaches the text. In particular a second invocation that starts where the
  first one ended repeats its text; and an invocation leaves the arrays that existed
  before it as they were. The descriptors are the input as the function reads it: a
  schema holds its properties in the order in which \<open>Object.entries\<close> enumerates them.
\<close>

theorem generateTypeScriptDefinitions_deterministic:
  "(tools1 = tools2 \<longrightarrow>
      fst (invokeGenerateTypeScriptDefinitions toUpperCase toLowerCase h1 tools1)
        = fst (invokeGenerateTypeScriptDefinitions toUpperCase toLowerCase h2 tools2))
   \<and> fst (invokeGenerateTypeScriptDefinitions toUpperCase toLowerCase
            (snd (invokeGenerateTypeScriptDefinitions toUpperCase toLowerCase h tools)) tools)
       = fst (invokeGenerateTypeScriptDefinitions toUpperCase toLowerCase h tools)
   \<and> take (length h) (snd (invokeGenerateTypeScriptDefinitions toUpperCase toLowerCase h tools))
       = h"
  by (simp add: invokeGenerateTypeScriptDefinitions_text)

theorem generateTypeScriptDefinitions_deterministic_witness:
  "fst (invokeGenerateTypeScriptDefinitions asciiToUpperCase asciiToLowerCase usedHeap
          [pingTool, pointTool])
     = Returns
         (''// TypeScript definitions for MCP tools'' @ [newline]
          @ ''interface PingItInput {'' @ [newline] @ [newline] @ ''}'' @ [newline, newline]
          @ ''interface PingItOutput {'' @ [newline]
          @ ''  [key: string]: any;'' @ [newline] @ ''}'' @ [newline, newline]
          @ ''interface GetPointInput {'' @ [newline]
          @ ''  p: '' @ [dquote] @ ''a'' @ [dquote] @ '' | '' @ [dquote] @ ''b'' @ [dquote]
          @ '';'' @ [newline] @ ''  q?: number;'' @ [newline] @ ''}'' @ [newline, newline]
          @ ''interface GetPointOutput {'' @ [newline]
          @ ''  [key: string]: any;'' @ [newline] @ ''}'' @ [newline, newline]
          @ ''declare const mcp: {'' @ [newline]
          @ ''  ping_it: ('' @ [newline] @ ''    input: PingItInput'' @ [newline]
          @ ''  ) => Promise<PingItOutput>;'' @ [newline, newline]
          @ ''  /**'' @ [newline] @ ''   * Gets a point'' @ [newline] @ ''   */'' @ [newline]
          @ ''  get_point: ('' @ [newline] @ ''    input: GetPointInput'' @ [newline]
          @ ''  ) => Promise<GetPointOutput>;'' @ [newline] @ ''};'')"
proof -
  have empty: "jsonSchemaToTypeScript (Some emptyObjectSchema) 0
      = Returns (''{'' @ [newline] @ [newline] @ ''}'')"
    by (simp add: jsonSchemaToTypeScript.simps(2) emptyObjectSchema_def)
  have enum: "jsonSchemaToTypeScript (Some enumSchema) k
      = Returns ([dquote] @ ''a'' @ [dquote] @ '' | '' @ [dquote] @ ''b'' @ [dquote])" for k
    by (simp add: jsonSchemaToTypeScript.simps(2) enumSchema_def)
  have number: "jsonSchemaToTypeScript (Some numberSchema) k = Returns ''number''" for k
    by (simp add: jsonSchemaToTypeScript.simps(2) numberSchema_def)
  have plain: "description enumSchema = None" "description numberSchema = None"
    by (simp_all add: enumSchema_def numberSchema_def)
  have point: "jsonSchemaToTypeScript (Some pointSchema) 0
      = Returns (''{'' @ [newline]
                 @ ''  p: '' @ [dquote] @ ''a'' @ [dquote] @ '' | '' @ [dquote] @ ''b''
                 @ [dquote] @ '';'' @ [newline] @ ''  q?: number;'' @ [newline] @ ''}'')"
    by (subst jsonSchemaToTypeScript.simps(2) [of pointSchema 0])
      (simp add: pointSchema_def enum number plain propertyLine_def propertyComment_def
        optionalMark_def)
  have names: "toPascalCase asciiToUpperCase asciiToLowerCase ''ping-it'' = ''PingIt''"
      "toPascalCase asciiToUpperCase asciiToLowerCase ''get_point'' = ''GetPoint''"
      "sanitizeName ''ping-it'' = ''ping_it''" "sanitizeName ''get_point'' = ''get_point''"
    by (simp_all add: toPascalCase_def asciiToUpperCase_def asciiToLowerCase_def
        sanitizeName_def isWordChar_def lowerLetters_def upperLetters_def digits_def)
  have fresh: "fst (invokeGenerateTypeScriptDefinitions asciiToUpperCase asciiToLowerCase []
                      [pingTool, pointTool])
     = Returns
         (''// TypeScript definitions for MCP tools'' @ [newline]
          @ ''interface PingItInput {'' @ [newline] @ [newline] @ ''}'' @ [newline, newline]
          @ ''interface PingItOutput {'' @ [newline]
          @ ''  [key: string]: any;'' @ [newline] @ ''}'' @ [newline, newline]
          @ ''interface GetPointInput {'' @ [newline]
          @ ''  p: '' @ [dquote] @ ''a'' @ [dquote] @ '' | '' @ [dquote] @ ''b'' @ [dquote]
          @ '';'' @ [newline] @ ''  q?: number;'' @ [newline] @ ''}'' @ [newline, newline]
          @ ''interface GetPointOutput {'' @ [newline]
          @ ''  [key: string]: any;'' @ [newline] @ ''}'' @ [newline, newline]
          @ ''declare const mcp: {'' @ [newline]
          @ ''  ping_it: ('' @ [newline] @ ''    input: PingItInput'' @ [newline]
          @ ''  ) => Promise<PingItOutput>;'' @ [newline, newline]
          @ ''  /**'' @ [newline] @ ''   * Gets a point'' @ [newline] @ ''   */'' @ [newline]
          @ ''  get_point: ('' @ [newline] @ ''    input: GetPointInput'' @ [newline]
          @ ''  ) => Promise<GetPointOutput>;'' @ [newline] @ ''};'')"
    by (simp add: invokeGenerateTypeScriptDefinitions_def newArray_def
        generateToolInPlace_def generateTool_def pingTool_def pointTool_def empty point names
        replaceNewlines_def newline_def)
  from generateTypeScriptDefinitions_deterministic
    [of "[pingTool, pointTool]" "[pingTool, pointTool]" asciiToUpperCase asciiToLowerCase
      usedHeap "[]"]
  have "fst (invokeGenerateTypeScriptDefinitions asciiToUpperCase asciiToLowerCase usedHeap
               [pingTool, pointTool])
      = fst (invokeGenerateTypeScriptDefinitions asciiToUpperCase asciiToLowerCase []
               [pingTool, pointTool])"
    by simp
  with fresh show ?thesis by simp
qed

lemma mapResults_Returns_iff: "mapResults cs = Returns xs \<longleftrightarrow> cs = map Returns xs"
proof (induction cs arbitrary: xs rule: mapResults.induct)
  case 1
  show ?case by auto
next
  case (2 e rest)
  show ?case by auto
next
  case (3 x rest)
  show ?case
  proof (cases "mapResults rest")
    case (Returns ys)
    with 3 show ?thesis by (cases xs) auto
  next
    case (Throws e)
    with 3 show ?thesis by (cases xs) auto
  qed
qed

lemma property_lines:
  assumes "map (\<lambda>(key, propSchema).
                  (case propSchema of
                     None \<Rightarrow> Throws raised
                   | Some p \<Rightarrow>
                       (case translate p of
                          Throws e \<Rightarrow> Throws e
                        | Returns propType \<Rightarrow> Returns (line key p propType))))
             entries
           = map Returns lines"
  shows "\<exists>props propTypes.
           entries = map (\<lambda>(key, p). (key, Some p)) props
           \<and> map (\<lambda>(key, p). translate p) props = map Returns propTypes
           \<and> lines = map (\<lambda>((key, p), propType). line key p propType) (zip props propTypes)"
  using assms
proof (induction entries arbitrary: lines)
  case Nil
  then show ?case by simp
next
  case (Cons entry entries)
  obtain key propSchema where entry: "entry = (key, propSchema)"
    by (cases entry)
  from Cons.prems obtain firstLine others where lines: "lines = firstLine # others"
    by (cases lines) auto
  from Cons.prems entry lines obtain p propType
    where p: "propSchema = Some p" and propType: "translate p = Returns propType"
      and firstLine: "firstLine = line key p propType"
    by (cases propSchema; cases "translate (the propSchema)") auto
  from Cons.prems lines
  have "\<exists>props propTypes.
           entries = map (\<lambda>(key, p). (key, Some p)) props
           \<and> map (\<lambda>(key, p). translate p) props = map Returns propTypes
           \<and> others = map (\<lambda>((key, p), propType). line key p propType) (zip props propTypes)"
    by (intro Cons.IH) simp
  then obtain props propTypes
    where props: "entries = map (\<lambda>(key, p). (key, Some p)) props"
      and propTypes: "map (\<lambda>(key, p). translate p) props = map Returns propTypes"
      and others: "others = map (\<lambda>((key, p), propType). line key p propType)
                              (zip props propTypes)"
    by blast
  show ?case
    by (rule exI [of _ "(key, p) # props"], rule exI [of _ "propType # propTypes"])
      (simp add: entry p props propType propTypes lines firstLine others)
qed

text \<open>
  C5, as stated, fails: the generator looks at \<open>anyOf\<close>, \<open>oneOf\<close> and \<open>allOf\<close> before it
  looks at \<open>type\<close>, so the string-typed property \<open>p\<close> below, which carries
  \<open>enum: ["a","b"]\<close> and also an \<open>anyOf\<close>, renders as \<open>number\<close>.
\<close>

theorem enum_property_under_anyOf_counterexample:
  "type enumUnderAnyOfSchema = Some ''string''
   \<and> enum enumUnderAnyOfSchema = Some [''a'', ''b'']
   \<and> jsonSchemaToTypeScript (Some enumUnderAnyOfSchema) 2 = Returns ''number''
   \<and> jsonSchemaToTypeScript (Some brokenPointSchema) 0
       = Returns (''{'' @ [newline] @ ''  p: number;'' @ [newline] @ ''}'')"
  by (simp add: jsonSchemaToTypeScript.simps(2) brokenPointSchema_def enumUnderAnyOfSchema_def
      numberSchema_def propertyLine_def propertyComment_def optionalMark_def)

text \<open>
  C5, amended. For an object schema that carries none of \<open>anyOf\<close>, \<open>oneOf\<close>, \<open>allOf\<close> and
  has \<open>properties\<close>: when the translation returns a text, every property holds a schema
  whose translation returned, and the body of the rendered record is one line per
  property, in order; the line of a property has no optional marker when its key is listed
  in \<open>required\<close> and the marker \<open>?\<close> right after the key when it is not (also when there is
  no \<open>required\<close> array). A string-typed property that carries \<open>enum: ["a","b"]\<close> and none of
  \<open>anyOf\<close>, \<open>oneOf\<close>, \<open>allOf\<close> renders as the literal union \<open>"a" | "b"\<close>.
\<close>

theorem object_schema_required_and_enum:
  "(anyOf s = None \<and> oneOf s = None \<and> allOf s = None
      \<and> type s = Some ''object'' \<and> properties s = Some entries
      \<and> jsonSchemaToTypeScript (Some s) indent = Returns rendered \<longrightarrow>
      (\<exists>props propTypes additionalProps.
         entries = map (\<lambda>(key, p). (key, Some p)) props
         \<and> map (\<lambda>(key, p). jsonSchemaToTypeScript (Some p) (indent + 2)) props
             = map Returns propTypes
         \<and> rendered =
             ''{'' @ [newline]
             @ join [newline]
                 (map (\<lambda>((key, p), propType).
                         propertyLine
                           (propertyComment (replicate indent CHR '' '') (description p))
                           (replicate indent CHR '' '') key
                           (if (\<exists>names. required s = Some names \<and> key \<in> set names)
                            then '''' else ''?'')
                           propType)
                    (zip props propTypes))
             @ additionalProps @ [newline] @ replicate indent CHR '' '' @ ''}''))
   \<and> (anyOf p = None \<and> oneOf p = None \<and> allOf p = None
        \<and> type p = Some ''string'' \<and> enum p = Some [''a'', ''b''] \<longrightarrow>
        jsonSchemaToTypeScript (Some p) k
          = Returns ([dquote] @ ''a'' @ [dquote] @ '' | '' @ [dquote] @ ''b'' @ [dquote]))"
proof -
  let ?spaces = "replicate indent CHR '' ''"
  let ?translate = "\<lambda>p. jsonSchemaToTypeScript (Some p) (indent + 2)"
  let ?line = "\<lambda>key p propType.
                 propertyLine (propertyComment ?spaces (description p)) ?spaces key
                   (optionalMark (required s) key) propType"
  have mark: "optionalMark req key
      = (if (\<exists>names. req = Some names \<and> key \<in> set names) then '''' else ''?'')"
    for req key
    by (cases req) (simp_all add: optionalMark_def)
  have object: "\<exists>props propTypes additionalProps.
         entries = map (\<lambda>(key, p). (key, Some p)) props
         \<and> map (\<lambda>(key, p). ?translate p) props = map Returns propTypes
         \<and> rendered =
             ''{'' @ [newline]
             @ join [newline]
                 (map (\<lambda>((key, p), propType). ?line key p propType) (zip props propTypes))
             @ additionalProps @ [newline] @ ?spaces @ ''}''"
    if shape: "anyOf s = None" "oneOf s = None" "allOf s = None" "type s = Some ''object''"
        "properties s = Some entries"
      and returns: "jsonSchemaToTypeScript (Some s) indent = Returns rendered"
  proof -
    let ?results = "map (\<lambda>(key, propSchema).
                           (case propSchema of
                              None \<Rightarrow> Throws nullDescription
                            | Some p \<Rightarrow>
                                (case ?translate p of
                                   Throws e \<Rightarrow> Throws e
                                 | Returns propType \<Rightarrow> Returns (?line key p propType))))
                      entries"
    let ?additional =
      "case additionalProperties s of
         Some (Inr additionalSchema) \<Rightarrow>
           (case jsonSchemaToTypeScript (Some additionalSchema) (indent + 2) of
              Throws e \<Rightarrow> Throws e
            | Returns additionalType \<Rightarrow>
                Returns ([newline] @ ?spaces @ ''  [key: string]: '' @ additionalType @ '';''))
       | Some (Inl True) \<Rightarrow> Returns ([newline] @ ?spaces @ ''  [key: string]: unknown;'')
       | _ \<Rightarrow> Returns ''''"
    have "jsonSchemaToTypeScript (Some s) indent =
        (case mapResults ?results of
           Throws e \<Rightarrow> Throws e
         | Returns lines \<Rightarrow>
             (case ?additional of
                Throws e \<Rightarrow> Throws e
              | Returns additionalProps \<Rightarrow>
                  Returns (''{'' @ [newline] @ join [newline] lines @ additionalProps
                           @ [newline] @ ?spaces @ ''}'')))"
      by (subst jsonSchemaToTypeScript.simps(2) [of s indent])
        (simp add: Let_def shape del: add_2_eq_Suc' add_2_eq_Suc)
    with returns obtain lines additionalProps
      where lines: "mapResults ?results = Returns lines"
        and rendered: "rendered = ''{'' @ [newline] @ join [newline] lines @ additionalProps
                                  @ [newline] @ ?spaces @ ''}''"
      by (auto split: completion.splits)
    from lines have "?results = map Returns lines"
      by (simp only: mapResults_Returns_iff)
    then obtain props propTypes
      where "entries = map (\<lambda>(key, p). (key, Some p)) props"
        and "map (\<lambda>(key, p). ?translate p) props = map Returns propTypes"
        and "lines = map (\<lambda>((key, p), propType). ?line key p propType) (zip props propTypes)"
      using property_lines [where translate = ?translate and line = ?line] by blast
    with rendered show ?thesis by blast
  qed
  have union: "anyOf p = None \<and> oneOf p = None \<and> allOf p = None
        \<and> type p = Some ''string'' \<and> enum p = Some [''a'', ''b''] \<longrightarrow>
        jsonSchemaToTypeScript (Some p) k
          = Returns ([dquote] @ ''a'' @ [dquote] @ '' | '' @ [dquote] @ ''b'' @ [dquote])"
    by (simp add: jsonSchemaToTypeScript.simps(2))
  show ?thesis
    unfolding mark [symmetric] using object union by blast
qed

theorem object_schema_required_and_enum_witness:
  "jsonSchemaToTypeScript (Some pointSchema) 0 =
     Returns
       (''{'' @ [newline]
        @ ''  p: '' @ [dquote] @ ''a'' @ [dquote] @ '' | '' @ [dquote] @ ''b'' @ [dquote] @ '';''
        @ [newline] @ ''  q?: number;'' @ [newline] @ ''}'')
   \<and> (\<exists>props propTypes additionalProps.
         [(''p'', Some enumSchema), (''q'', Some numberSchema)]
           = map (\<lambda>(key, p). (key, Some p)) props
         \<and> map (\<lambda>(key, p). jsonSchemaToTypeScript (Some p) 2) props = map Returns propTypes
         \<and> ''{'' @ [newline]
             @ ''  p: '' @ [dquote] @ ''a'' @ [dquote] @ '' | '' @ [dquote] @ ''b'' @ [dquote]
             @ '';'' @ [newline] @ ''  q?: number;'' @ [newline] @ ''}''
           = ''{'' @ [newline]
             @ join [newline]
                 (map (\<lambda>((key, p), propType).
                         propertyLine (propertyComment '''' (description p)) '''' key
                           (if key \<in> set [''p''] then '''' else ''?'') propType)
                    (zip props propTypes))
             @ additionalProps @ [newline] @ ''}'')
   \<and> jsonSchemaToTypeScript (Some enumSchema) 2
       = Returns ([dquote] @ ''a'' @ [dquote] @ '' | '' @ [dquote] @ ''b'' @ [dquote])"
proof -
  let ?rendered = "''{'' @ [newline]
        @ ''  p: '' @ [dquote] @ ''a'' @ [dquote] @ '' | '' @ [dquote] @ ''b'' @ [dquote] @ '';''
        @ [newline] @ ''  q?: number;'' @ [newline] @ ''}''"
  note inst = object_schema_required_and_enum
    [of pointSchema "[(''p'', Some enumSchema), (''q'', Some numberSchema)]" 0 ?rendered
      enumSchema 2]
  have shape: "anyOf pointSchema = None" "oneOf pointSchema = None" "allOf pointSchema = None"
      "type pointSchema = Some ''object''"
      "properties pointSchema = Some [(''p'', Some enumSchema), (''q'', Some numberSchema)]"
      "required pointSchema = Some [''p'']" "additionalProperties pointSchema = None"
    by (simp_all add: pointSchema_def)
  have enumShape: "anyOf enumSchema = None" "oneOf enumSchema = None" "allOf enumSchema = None"
      "type enumSchema = Some ''string''" "enum enumSchema = Some [''a'', ''b'']"
      "description enumSchema = None"
    by (simp_all add: enumSchema_def)
  have number: "jsonSchemaToTypeScript (Some numberSchema) k = Returns ''number''" for k
    by (simp add: jsonSchemaToTypeScript.simps(2) numberSchema_def)
  have plain: "description numberSchema = None"
    by (simp add: numberSchema_def)
  from inst [THEN conjunct2] enumShape
  have enum: "jsonSchemaToTypeScript (Some enumSchema) 2
      = Returns ([dquote] @ ''a'' @ [dquote] @ '' | '' @ [dquote] @ ''b'' @ [dquote])"
    by simp
  have enums: "jsonSchemaToTypeScript (Some enumSchema) k
      = Returns ([dquote] @ ''a'' @ [dquote] @ '' | '' @ [dquote] @ ''b'' @ [dquote])" for k
    by (subst jsonSchemaToTypeScript.simps(2)) (simp add: enumShape)
  have point: "jsonSchemaToTypeScript (Some pointSchema) 0 = Returns ?rendered"
    by (subst jsonSchemaToTypeScript.simps(2) [of pointSchema 0])
      (simp add: shape enumShape plain enums number propertyLine_def propertyComment_def
        optionalMark_def)
  from inst [THEN conjunct1] shape point
  have "\<exists>props propTypes additionalProps.
         [(''p'', Some enumSchema), (''q'', Some numberSchema)]
           = map (\<lambda>(key, p). (key, Some p)) props
         \<and> map (\<lambda>(key, p). jsonSchemaToTypeScript (Some p) (0 + 2)) props
             = map Returns propTypes
         \<and> ?rendered =
             ''{'' @ [newline]
             @ join [newline]
                 (map (\<lambda>((key, p), propType).
                         propertyLine
                           (propertyComment (replicate 0 CHR '' '') (description p))
                           (replicate 0 CHR '' '') key
                           (if (\<exists>names. required pointSchema = Some names \<and> key \<in> set names)
                            then '''' else ''?'')
                           propType)
                    (zip props propTypes))
             @ additionalProps @ [newline] @ replicate 0 CHR '' '' @ ''}''"
    by blast
  then have "\<exists>props propTypes additionalProps.
         [(''p'', Some enumSchema), (''q'', Some numberSchema)]
           = map (\<lambda>(key, p). (key, Some p)) props
         \<and> map (\<lambda>(key, p). jsonSchemaToTypeScript (Some p) 2) props = map Returns propTypes
         \<and> ?rendered
           = ''{'' @ [newline]
             @ join [newline]
                 (map (\<lambda>((key, p), propType).
                         propertyLine (propertyComment '''' (description p)) '''' key
                           (if key \<in> set [''p''] then '''' else ''?'') propType)
                    (zip props propTypes))
             @ additionalProps @ [newline] @ ''}''"
    by (simp add: shape numeral_2_eq_2)
  with point enum show ?thesis by blast
qed

lemma mapResults_all_return:
  assumes "\<forall>c \<in> set cs. \<exists>x. c = Returns x"
  shows "\<exists>xs. mapResults cs = Returns xs"
  using assms
proof (induction cs)
  case Nil
  show ?case by simp
next
  case (Cons c cs)
  then obtain x xs where "c = Returns x" "mapResults cs = Returns xs"
    by auto
  then show ?case by simp
qed

lemma jsonSchemaToTypeScript_returns:
  "(case s of Some sc \<Rightarrow> propertiesHaveSchemas sc | None \<Rightarrow> True) \<Longrightarrow>
     \<exists>text. jsonSchemaToTypeScript s indent = Returns text"
proof (induction s indent rule: jsonSchemaToTypeScript.induct)
  case (1 indent)
  show ?case by simp
next
  case (2 schema indent)
  from "2.prems" have wf: "propertiesHaveSchemas schema" by simp
  note parts = wf [unfolded propertiesHaveSchemas.simps [of schema]]
  show ?case
  proof (cases "anyOf schema")
    case (Some branches)
    have "\<forall>c \<in> set (map (\<lambda>s. jsonSchemaToTypeScript s indent) branches). \<exists>x. c = Returns x"
    proof
      fix c
      assume "c \<in> set (map (\<lambda>s. jsonSchemaToTypeScript s indent) branches)"
      then obtain b where b: "b \<in> set branches" and c: "c = jsonSchemaToTypeScript b indent"
        by auto
      from parts Some b have "case b of Some sc \<Rightarrow> propertiesHaveSchemas sc | None \<Rightarrow> True"
        by auto
      with "2.IH"(7) [OF refl Some b] c show "\<exists>x. c = Returns x" by simp
    qed
    then obtain texts where texts:
      "mapResults (map (\<lambda>s. jsonSchemaToTypeScript s indent) branches) = Returns texts"
      using mapResults_all_return by blast
    show ?thesis
      by (subst jsonSchemaToTypeScript.simps(2)) (simp add: Let_def Some texts)
  next
    case None
    note noAny = None
    show ?thesis
    proof (cases "oneOf schema")
      case (Some branches)
      have "\<forall>c \<in> set (map (\<lambda>s. jsonSchemaToTypeScript s indent) branches). \<exists>x. c = Returns x"
      proof
        fix c
        assume "c \<in> set (map (\<lambda>s. jsonSchemaToTypeScript s indent) branches)"
        then obtain b where b: "b \<in> set branches" and c: "c = jsonSchemaToTypeScript b indent"
          by auto
        from parts Some b have "case b of Some sc \<Rightarrow> propertiesHaveSchemas sc | None \<Rightarrow> True"
          by auto
        with "2.IH"(6) [OF refl noAny Some b] c show "\<exists>x. c = Returns x" by simp
      qed
      then obtain texts where texts:
        "mapResults (map (\<lambda>s. jsonSchemaToTypeScript s indent) branches) = Returns texts"
        using mapResults_all_return by blast
      show ?thesis
        by (subst jsonSchemaToTypeScript.simps(2)) (simp add: Let_def noAny Some texts)
    next
      case None
      note noOne = None
      show ?thesis
      proof (cases "allOf schema")
        case (Some branches)
        show ?thesis
        proof (cases branches)
          case Nil
          show ?thesis
            by (subst jsonSchemaToTypeScript.simps(2)) (simp add: Let_def noAny noOne Some Nil)
        next
          case (Cons first rest)
          from parts Some Cons
          have "case first of Some sc \<Rightarrow> propertiesHaveSchemas sc | None \<Rightarrow> True"
            by auto
          with "2.IH"(5) [OF refl noAny noOne Some Cons]
          obtain firstType
            where firstType: "jsonSchemaToTypeScript first indent = Returns firstType" by blast
          show ?thesis
            by (subst jsonSchemaToTypeScript.simps(2))
              (simp add: Let_def noAny noOne Some Cons firstType)
        qed
      next
        case None
        note noAll = None
        show ?thesis
        proof (cases "type schema = Some ''array''")
          case True
          show ?thesis
          proof (cases "items schema")
            case None
            show ?thesis
              by (subst jsonSchemaToTypeScript.simps(2))
                (simp add: Let_def noAny noOne noAll True None)
          next
            case (Some itemSchema)
            from parts Some have "propertiesHaveSchemas itemSchema" by simp
            with "2.IH"(1) [OF refl noAny noOne noAll _ _ _ _ True Some]
            obtain itemType
              where itemType: "jsonSchemaToTypeScript (Some itemSchema) indent = Returns itemType"
              using True by auto
            show ?thesis
              by (subst jsonSchemaToTypeScript.simps(2))
                (simp add: Let_def noAny noOne noAll True Some itemType)
          qed
        next
          case notArray: False
          show ?thesis
          proof (cases "type schema = Some ''object''")
            case False
            show ?thesis
              by (subst jsonSchemaToTypeScript.simps(2))
                (auto simp: Let_def noAny noOne noAll notArray False split: option.splits)
          next
            case True
            show ?thesis
            proof (cases "properties schema")
              case None
              show ?thesis
                by (subst jsonSchemaToTypeScript.simps(2))
                  (simp add: Let_def noAny noOne noAll True None)
            next
              case (Some entries)
              let ?spaces = "replicate indent CHR '' ''"
              let ?line = "\<lambda>(key, propSchema).
                  (case propSchema of
                     None \<Rightarrow> Throws nullDescription
                   | Some p \<Rightarrow>
                       (case jsonSchemaToTypeScript (Some p) (indent + 2) of
                          Throws e \<Rightarrow> Throws e
                        | Returns propType \<Rightarrow>
                            Returns (propertyLine (propertyComment ?spaces (description p))
                                       ?spaces key (optionalMark (required schema) key)
                                       propType)))"
              have "\<forall>c \<in> set (map ?line entries). \<exists>x. c = Returns x"
              proof
                fix c
                assume "c \<in> set (map ?line entries)"
                then obtain key y where entry: "(key, y) \<in> set entries" and c: "c = ?line (key, y)"
                  by auto
                from parts Some entry obtain p where y: "y = Some p" and p: "propertiesHaveSchemas p"
                  by (cases y) auto
                from "2.IH"(2) [OF refl noAny noOne noAll _ _ _ _ notArray True Some entry refl y] p
                obtain propType where "jsonSchemaToTypeScript (Some p) (indent + 2) = Returns propType"
                  using True by auto
                with c y show "\<exists>x. c = Returns x" by simp
              qed
              then obtain lines where lines: "mapResults (map ?line entries) = Returns lines"
                using mapResults_all_return by blast
              show ?thesis
              proof (cases "additionalProperties schema")
                case None
                show ?thesis
                  by (subst jsonSchemaToTypeScript.simps(2))
                    (simp add: Let_def noAny noOne noAll True Some lines None del: add_2_eq_Suc' add_2_eq_Suc)
              next
                case additional: (Some a)
                show ?thesis
                proof (cases a)
                  case (Inl flag)
                  show ?thesis
                    by (subst jsonSchemaToTypeScript.simps(2))
                      (cases flag; simp add: Let_def noAny noOne noAll True Some lines additional
                        Inl del: add_2_eq_Suc' add_2_eq_Suc)
                next
                  case (Inr b)
                  from parts additional Inr have "propertiesHaveSchemas b" by simp
                  with "2.IH"(3) [OF refl noAny noOne noAll _ _ _ _ notArray True Some lines
                      additional Inr]
                  obtain additionalType where additionalType:
                    "jsonSchemaToTypeScript (Some b) (indent + 2) = Returns additionalType"
                    using True by auto
                  show ?thesis
                    by (subst jsonSchemaToTypeScript.simps(2))
                      (simp add: Let_def noAny noOne noAll True Some lines additional Inr
                        additionalType del: add_2_eq_Suc' add_2_eq_Suc)
                qed
              qed
            qed
          qed
        qed
      qed
    qed
  qed
qed

lemma jsonSchemaToTypeScript_unknown:
  "jsonSchemaToTypeScript None indent = Returns ''unknown''
   \<and> (anyOf sc = None \<and> oneOf sc = None \<and> allOf sc = None
        \<and> (\<forall>t \<in> set recognizedTypes. type sc \<noteq> Some t) \<longrightarrow>
        jsonSchemaToTypeScript (Some sc) indent = Returns ''unknown'')
   \<and> (anyOf sc = None \<and> oneOf sc = None \<and> (allOf sc = Some [] \<or> allOf sc = Some (None # rest))
        \<longrightarrow> jsonSchemaToTypeScript (Some sc) indent = Returns ''unknown'')
   \<and> (anyOf sc = None \<and> oneOf sc = None \<and> allOf sc = None
        \<and> type sc = Some ''array'' \<and> items sc = None \<longrightarrow>
        jsonSchemaToTypeScript (Some sc) indent = Returns ''unknown[]'')"
  by (auto simp add: jsonSchemaToTypeScript.simps(2) recognizedTypes_def)

text \<open>
  C7 fails on a schema tree in which a property holds no schema: the callback that renders
  a property reads \<open>propSchema.description\<close> before it hands \<open>propSchema\<close> to
  \<open>jsonSchemaToTypeScript\<close>, whose first statement would have answered \<open>unknown\<close>. On
  \<open>{type: 'object', properties: {a: null}}\<close> the translation raises a \<open>TypeError\<close>, and so
  does the generation of the interface text of a tool with this input schema. The same
  \<open>null\<close> as a branch of \<open>anyOf\<close> is rendered as \<open>unknown\<close>.
\<close>

theorem null_property_schema_raises:
  "jsonSchemaToTypeScript (Some nullPropertySchema) 0 = Throws nullDescription
   \<and> generateTypeScriptDefinitions toUpperCase toLowerCase
         [pingTool,
          \<lparr>toolName = ''put'', toolDescription = None, inputSchema = Some nullPropertySchema\<rparr>]
       = Throws nullDescription
   \<and> jsonSchemaToTypeScript (Some nullBranchSchema) 0 = Returns ''unknown | number''"
proof -
  have raises: "jsonSchemaToTypeScript (Some nullPropertySchema) 0 = Throws nullDescription"
    by (simp add: jsonSchemaToTypeScript.simps(2) nullPropertySchema_def)
  have ping: "jsonSchemaToTypeScript (Some emptyObjectSchema) 0
      = Returns (''{'' @ [newline] @ [newline] @ ''}'')"
    by (simp add: jsonSchemaToTypeScript.simps(2) emptyObjectSchema_def)
  have "generateTypeScriptDefinitions toUpperCase toLowerCase
         [pingTool,
          \<lparr>toolName = ''put'', toolDescription = None, inputSchema = Some nullPropertySchema\<rparr>]
       = Throws nullDescription"
    by (simp add: generateTypeScriptDefinitions_def generateTool_def pingTool_def Let_def
        raises ping)
  moreover have "jsonSchemaToTypeScript (Some nullBranchSchema) 0 = Returns ''unknown | number''"
    by (simp add: jsonSchemaToTypeScript.simps(2) nullBranchSchema_def numberSchema_def)
  ultimately show ?thesis
    using raises by simp
qed

section \<open>Properties of the validation gate\<close>

declare toolPatternExecAll.simps [simp del]

lemma not_word_paren: "\<not> isWordChar CHR ''(''"
  by (simp add: isWordChar_def lowerLetters_def upperLetters_def digits_def)

lemma not_word_dot: "\<not> isWordChar CHR ''.''"
  by (simp add: isWordChar_def lowerLetters_def upperLetters_def digits_def)

text \<open>The regular expression matches at the start of \<open>s\<close> exactly the texts of its form.\<close>

lemma matchToolCall_Some_iff:
  "matchToolCall s = Some (w, r) \<longleftrightarrow>
     w \<noteq> [] \<and> (\<forall>c \<in> set w. isWordChar c) \<and> s = ''mcp.'' @ w @ ''('' @ r"
proof
  assume m: "matchToolCall s = Some (w, r)"
  let ?d = "drop 4 s"
  from m have t4: "take 4 s = ''mcp.''"
    and w: "w = takeWhile isWordChar ?d" and wne: "w \<noteq> []"
    and t1: "take 1 (dropWhile isWordChar ?d) = ''(''"
    and r: "r = drop 1 (dropWhile isWordChar ?d)"
    by (auto simp: matchToolCall_def Let_def split: if_splits)
  have s1: "s = ''mcp.'' @ ?d"
    using t4 append_take_drop_id [of 4 s] by metis
  have d1: "?d = w @ dropWhile isWordChar ?d"
    unfolding w by simp
  have d2: "dropWhile isWordChar ?d = ''('' @ r"
    using t1 r append_take_drop_id [of 1 "dropWhile isWordChar ?d"] by metis
  have "s = ''mcp.'' @ w @ ''('' @ r"
    using s1 d1 d2 by metis
  moreover have "\<forall>c \<in> set w. isWordChar c"
    unfolding w by (auto dest: set_takeWhileD)
  ultimately show "w \<noteq> [] \<and> (\<forall>c \<in> set w. isWordChar c) \<and> s = ''mcp.'' @ w @ ''('' @ r"
    using wne by simp
next
  assume a: "w \<noteq> [] \<and> (\<forall>c \<in> set w. isWordChar c) \<and> s = ''mcp.'' @ w @ ''('' @ r"
  then have tw: "takeWhile isWordChar (w @ CHR ''('' # r) = w"
    and dw: "dropWhile isWordChar (w @ CHR ''('' # r) = CHR ''('' # r"
    by (simp_all add: not_word_paren)
  from a show "matchToolCall s = Some (w, r)"
    by (simp add: matchToolCall_def tw dw)
qed

lemma take4_mcp: "take 4 s = ''mcp.'' \<longleftrightarrow> (\<exists>rest. s = ''mcp.'' @ rest)"
proof
  assume "take 4 s = ''mcp.''"
  then have "s = ''mcp.'' @ drop 4 s"
    using append_take_drop_id [of 4 s] by metis
  then show "\<exists>rest. s = ''mcp.'' @ rest" ..
next
  assume "\<exists>rest. s = ''mcp.'' @ rest"
  then show "take 4 s = ''mcp.''" by auto
qed

lemma matchToolCall_None: "take 4 s \<noteq> ''mcp.'' \<Longrightarrow> matchToolCall s = None"
  by (simp add: matchToolCall_def)

lemma word_run_no_mcp:
  assumes "\<forall>c \<in> set ws. isWordChar c"
  shows "take 4 (ws @ CHR ''('' # r) \<noteq> ''mcp.''"
proof
  assume "take 4 (ws @ CHR ''('' # r) = ''mcp.''"
  then obtain rest where "ws @ CHR ''('' # r = ''mcp.'' @ rest"
    unfolding take4_mcp ..
  then have "CHR ''.'' \<in> set ws"
    by (auto simp: append_eq_Cons_conv)
  with assms show False
    using not_word_dot by blast
qed

text \<open>
  No match of the regular expression starts inside another one, so going on after a
  match skips no match.
\<close>

lemma no_match_in_word_run:
  assumes "\<forall>c \<in> set ws. isWordChar c"
    and "ws @ CHR ''('' # r = pre @ t"
    and "matchToolCall t = Some m"
  shows "\<exists>pre'. r = pre' @ t"
  using assms
proof (induction ws arbitrary: pre)
  case Nil
  show ?case
  proof (cases pre)
    case Nil
    with Nil.prems have "take 4 t \<noteq> ''mcp.''" by auto
    with Nil.prems show ?thesis by (simp add: matchToolCall_None)
  next
    case (Cons a pre')
    with Nil.prems show ?thesis by auto
  qed
next
  case (Cons w ws)
  show ?case
  proof (cases pre)
    case Nil
    with Cons.prems have "t = (w # ws) @ CHR ''('' # r" by simp
    with Cons.prems(1) have "take 4 t \<noteq> ''mcp.''"
      using word_run_no_mcp [of "w # ws" r] by simp
    with Cons.prems show ?thesis by (simp add: matchToolCall_None)
  next
    case (Cons a pre')
    with Cons.prems have "ws @ CHR ''('' # r = pre' @ t" by simp
    with Cons.IH Cons.prems show ?thesis by simp
  qed
qed

lemma no_match_inside_match:
  assumes "matchToolCall s = Some (w, r)" and "s = pre @ t" and "pre \<noteq> []"
    and "matchToolCall t = Some m"
  shows "\<exists>pre'. r = pre' @ t"
proof -
  from assms(1) have w: "\<forall>c \<in> set w. isWordChar c" and s: "s = ''mcp.'' @ w @ ''('' @ r"
    by (simp_all add: matchToolCall_Some_iff)
  have no: "take 4 t = ''mcp.''"
    using assms(4) by (auto simp: matchToolCall_def split: if_splits)
  from s assms(2,3) no have "\<exists>p. w @ CHR ''('' # r = p @ t"
    by (auto simp: append_eq_Cons_conv dest: sym)
  then obtain p where "w @ CHR ''('' # r = p @ t" ..
  from w this assms(4) show ?thesis
    by (rule no_match_in_word_run)
qed

lemma toolPatternExecAll_complete:
  "code = pre @ t \<Longrightarrow> matchToolCall t = Some (w, r) \<Longrightarrow> w \<in> set (toolPatternExecAll code)"
proof (induction code arbitrary: pre rule: toolPatternExecAll.induct)
  case (1 code)
  have t_ne: "t \<noteq> []"
    using "1.prems"(2) by (auto simp: matchToolCall_def)
  with "1.prems"(1) have ne: "code \<noteq> []" by simp
  show ?case
  proof (cases "matchToolCall code")
    case None
    with "1.prems" have "pre \<noteq> []" by auto
    with "1.prems"(1) ne have "tl code = tl pre @ t" by (cases pre) auto
    with "1.IH"(1) [OF ne None] "1.prems"(2) have "w \<in> set (toolPatternExecAll (tl code))"
      by blast
    with ne None show ?thesis
      by (subst toolPatternExecAll.simps) simp
  next
    case (Some m)
    obtain w0 r0 where m: "m = (w0, r0)" by (cases m)
    show ?thesis
    proof (cases "pre = []")
      case True
      with "1.prems" Some m have "w = w0" by simp
      with ne Some m show ?thesis
        by (subst toolPatternExecAll.simps) simp
    next
      case False
      with Some m "1.prems" obtain pre' where "r0 = pre' @ t"
        using no_match_inside_match by blast
      with "1.IH"(2) [OF ne Some [unfolded m] refl] "1.prems"(2)
      have "w \<in> set (toolPatternExecAll r0)" by blast
      with ne Some m show ?thesis
        by (subst toolPatternExecAll.simps) simp
    qed
  qed
qed

lemma toolPatternExecAll_sound:
  "w \<in> set (toolPatternExecAll code) \<Longrightarrow>
     \<exists>pre t r. code = pre @ t \<and> matchToolCall t = Some (w, r)"
proof (induction code rule: toolPatternExecAll.induct)
  case (1 code)
  from "1.prems" have ne: "code \<noteq> []"
    by (subst (asm) toolPatternExecAll.simps) (auto split: if_splits)
  show ?case
  proof (cases "matchToolCall code")
    case None
    with "1.prems" ne have "w \<in> set (toolPatternExecAll (tl code))"
      by (subst (asm) toolPatternExecAll.simps) simp
    with "1.IH"(1) [OF ne None] obtain pre t r
      where "tl code = pre @ t" "matchToolCall t = Some (w, r)" by blast
    with ne have "code = (hd code # pre) @ t" by (cases code) auto
    with \<open>matchToolCall t = Some (w, r)\<close> show ?thesis by blast
  next
    case (Some m)
    obtain w0 r0 where m: "m = (w0, r0)" by (cases m)
    from "1.prems" ne Some m
    consider "w = w0" | "w \<in> set (toolPatternExecAll r0)"
      by (subst (asm) toolPatternExecAll.simps) auto
    then show ?thesis
    proof cases
      case 1
      with Some m have "code = [] @ code" "matchToolCall code = Some (w, r0)" by simp_all
      then show ?thesis by blast
    next
      case 2
      with "1.IH"(2) [OF ne Some [unfolded m] refl] obtain pre t r
        where r0: "r0 = pre @ t" and t: "matchToolCall t = Some (w, r)" by blast
      from Some m have "code = ''mcp.'' @ w0 @ ''('' @ r0"
        by (simp add: matchToolCall_Some_iff)
      with r0 have "code = (''mcp.'' @ w0 @ ''('' @ pre) @ t" by simp
      with t show ?thesis by blast
    qed
  qed
qed

lemma set_toolPatternExecAll:
  "set (toolPatternExecAll code) = {ident. callsTool code ident}"
proof (intro set_eqI iffI)
  fix w
  assume "w \<in> set (toolPatternExecAll code)"
  then obtain pre t r where "code = pre @ t" "matchToolCall t = Some (w, r)"
    using toolPatternExecAll_sound by blast
  then show "w \<in> {ident. callsTool code ident}"
    by (auto simp: matchToolCall_Some_iff callsTool_def)
next
  fix w
  assume "w \<in> {ident. callsTool code ident}"
  then obtain before after where w: "w \<noteq> []" "\<forall>c \<in> set w. isWordChar c"
    and code: "code = before @ ''mcp.'' @ w @ ''('' @ after"
    by (auto simp: callsTool_def)
  from w have "matchToolCall (''mcp.'' @ w @ ''('' @ after) = Some (w, after)"
    by (simp add: matchToolCall_Some_iff)
  with code show "w \<in> set (toolPatternExecAll code)"
    by (rule toolPatternExecAll_complete)
qed

lemma set_foldl_setAdd: "set (foldl setAdd acc xs) = set acc \<union> set xs"
  by (induction xs arbitrary: acc) (auto simp: setAdd_def)

lemma join_contains: "x \<in> set xs \<Longrightarrow> \<exists>a b. join sep xs = a @ x @ b"
proof (induction sep xs rule: join.induct)
  case (1 sep)
  then show ?case by simp
next
  case (2 sep y)
  then have "join sep [y] = [] @ x @ []" by simp
  then show ?case by blast
next
  case (3 sep y z rest)
  show ?case
  proof (cases "x = y")
    case True
    then have "join sep (y # z # rest) = [] @ x @ (sep @ join sep (z # rest))" by simp
    then show ?thesis by blast
  next
    case False
    with 3 obtain a b where "join sep (z # rest) = a @ x @ b" by auto
    then have "join sep (y # z # rest) = (y @ sep @ a) @ x @ b" by simp
    then show ?thesis by blast
  qed
qed

lemma set_usedTools: "set (usedTools code) = {ident. callsTool code ident}"
  by (simp add: usedTools_def set_foldl_setAdd set_toolPatternExecAll)

lemma set_invalidTools:
  "set (invalidTools code available) = {ident. callsTool code ident \<and> ident \<notin> set available}"
  by (auto simp: invalidTools_def set_usedTools)

lemma usageSuccess_iff:
  "usageSuccess (validateMCPUsage code available)
     \<longleftrightarrow> (\<forall>ident. callsTool code ident \<longrightarrow> ident \<in> set available)"
proof -
  have "invalidTools code available = [] \<longleftrightarrow> set (invalidTools code available) = {}"
    by simp
  then show ?thesis
    unfolding set_invalidTools by (auto simp: validateMCPUsage_def)
qed

lemma usageError_names:
  assumes "\<not> usageSuccess (validateMCPUsage code available)"
  shows "usageError (validateMCPUsage code available)
           = Some (''Code uses undefined MCP tools: '' @ join '', '' (invalidTools code available))"
  using assms by (simp add: validateMCPUsage_def split: if_splits)

lemma executeCode_gate:
  assumes "connected cm" "validateTypes cm" "\<not> skipValidation"
    and "\<not> validationSuccess (validate submitted (typeDefinitions cm))
         \<or> \<not> usageSuccess (validateMCPUsage
               (validationOutput (validate submitted (typeDefinitions cm))) (availableTools cm))"
  shows "\<exists>result. executeCode validate sandboxExecute describeError cm submitted skipValidation
                     = (Returns result, []) \<and> \<not> success result"
  using assms by (auto simp: executeCode_def validationGate_def Let_def failure_def)

text \<open>
  C2. The usage check collects exactly the identifiers that occur in the compiled code in
  the form \<open>mcp.<identifier>(\<close>. It fails if and only if one of them is not among the
  known tool identifiers, and then its error text is the fixed heading followed by the
  offending identifiers, each of them and no other, so every offending identifier occurs
  in the text. When validation is enabled on a connected instance and the type validation
  or the usage check fails, \<open>executeCode\<close> returns a result with \<open>success = false\<close>, and
  \<open>sandbox.execute\<close> has not been invoked.
\<close>

theorem validation_gate:
  "set (usedTools code) = {ident. callsTool code ident}
   \<and> (usageSuccess (validateMCPUsage code available)
        \<longleftrightarrow> (\<forall>ident. callsTool code ident \<longrightarrow> ident \<in> set available))
   \<and> (\<not> usageSuccess (validateMCPUsage code available) \<longrightarrow>
        (\<exists>text. usageError (validateMCPUsage code available) = Some text
           \<and> text = ''Code uses undefined MCP tools: '' @ join '', '' (invalidTools code available)
           \<and> set (invalidTools code available)
               = {ident. callsTool code ident \<and> ident \<notin> set available}
           \<and> (\<forall>ident. callsTool code ident \<and> ident \<notin> set available \<longrightarrow>
                 (\<exists>before after. text = before @ ident @ after))))
   \<and> (connected cm \<and> validateTypes cm \<and> \<not> skipValidation
        \<and> (\<not> validationSuccess (validate submitted (typeDefinitions cm))
            \<or> \<not> usageSuccess (validateMCPUsage
                  (validationOutput (validate submitted (typeDefinitions cm)))
                  (availableTools cm))) \<longrightarrow>
        (\<exists>result. executeCode validate sandboxExecute describeError cm submitted skipValidation
                     = (Returns result, [])
           \<and> \<not> success result))"
proof -
  have names: "\<exists>before after.
      ''Code uses undefined MCP tools: '' @ join '', '' (invalidTools code available)
        = before @ ident @ after"
    if "callsTool code ident \<and> ident \<notin> set available" for ident
  proof -
    from that have "ident \<in> set (invalidTools code available)"
      by (simp add: set_invalidTools)
    then obtain a b where "join '', '' (invalidTools code available) = a @ ident @ b"
      using join_contains by blast
    then have "''Code uses undefined MCP tools: '' @ join '', '' (invalidTools code available)
        = (''Code uses undefined MCP tools: '' @ a) @ ident @ b" by simp
    then show ?thesis by blast
  qed
  show ?thesis
    using set_usedTools [of code] usageSuccess_iff [of code available]
      usageError_names [of code available] set_invalidTools [of code available] names
      executeCode_gate [of cm skipValidation validate submitted sandboxExecute describeError]
    by blast
qed

lemma usedTools_demo:
  "usedTools ''mcp.foo(1); mcp.bar(2); mcp.baz()'' = [''foo'', ''bar'', ''baz'']"
  by (simp add: usedTools_def toolPatternExecAll.simps matchToolCall_def setAdd_def
      isWordChar_def lowerLetters_def upperLetters_def digits_def)

theorem validation_gate_witness:
  "callsTool ''mcp.foo(1); mcp.bar(2); mcp.baz()'' ''baz''
   \<and> \<not> usageSuccess (validateMCPUsage ''mcp.foo(1); mcp.bar(2); mcp.baz()'' [''bar''])
   \<and> usageError (validateMCPUsage ''mcp.foo(1); mcp.bar(2); mcp.baz()'' [''bar''])
       = Some ''Code uses undefined MCP tools: foo, baz''
   \<and> executeCode passValidate okSandbox (\<lambda>raised code types. raised) demoMode
        ''mcp.foo(1); mcp.bar(2); mcp.baz()'' False
       = (Returns (failure (Some ''Code uses undefined MCP tools: foo, baz'')), [])"
proof -
  let ?code = "''mcp.foo(1); mcp.bar(2); mcp.baz()''"
  note gate = validation_gate [of ?code "[''bar'']" demoMode False passValidate ?code okSandbox
      "\<lambda>raised code types. raised"]
  note collects = gate [THEN conjunct1]
  note names = gate [THEN conjunct2, THEN conjunct2, THEN conjunct1]
  note gated = gate [THEN conjunct2, THEN conjunct2, THEN conjunct2]
  have invalid: "invalidTools ?code [''bar''] = [''foo'', ''baz'']"
    by (simp add: invalidTools_def usedTools_demo)
  have fails: "\<not> usageSuccess (validateMCPUsage ?code [''bar''])"
    by (simp add: validateMCPUsage_def invalid)
  have "''baz'' \<in> set (usedTools ?code)"
    by (simp add: usedTools_demo)
  then have calls: "callsTool ?code ''baz''"
    unfolding collects by simp
  obtain msg
    where "usageError (validateMCPUsage ?code [''bar'']) = Some msg"
      and "msg = ''Code uses undefined MCP tools: '' @ join '', '' (invalidTools ?code [''bar''])"
    using names fails by blast
  then have named: "usageError (validateMCPUsage ?code [''bar''])
       = Some ''Code uses undefined MCP tools: foo, baz''"
    by (simp add: invalid)
  have pre: "connected demoMode \<and> validateTypes demoMode \<and> \<not> False
      \<and> (\<not> validationSuccess (passValidate ?code (typeDefinitions demoMode))
          \<or> \<not> usageSuccess (validateMCPUsage
                (validationOutput (passValidate ?code (typeDefinitions demoMode)))
                (availableTools demoMode)))"
    using fails by (simp add: demoMode_def passValidate_def)
  from gated pre obtain result
    where run: "executeCode passValidate okSandbox (\<lambda>raised code types. raised) demoMode
        ?code False = (Returns result, [])" and "\<not> success result"
    by blast
  have "executeCode passValidate okSandbox (\<lambda>raised code types. raised) demoMode
        ?code False = (Returns (failure (Some ''Code uses undefined MCP tools: foo, baz'')), [])"
    using named fails
    by (simp add: executeCode_def validationGate_def demoMode_def passValidate_def)
  with calls fails named run show ?thesis
    by simp
qed

section \<open>Properties of the isolated sandbox\<close>

declare showNat.simps [simp del]

lemma showNat_128: "showNat 128 = ''128''"
  by (simp add: showNat.simps digits_def)

text \<open>The console calls of an evaluation change \<open>logs\<close> only.\<close>

lemma console_calls_keep:
  fixes calls :: "(console_method \<times> ('o, 'p) argument list) list"
  shows "memoryLimit (foldl (\<lambda>st (m, args).
                               case console stringify toString m args st of
                                 Some st' \<Rightarrow> st'
                               | None \<Rightarrow> st) st0 calls)
      = memoryLimit st0
    \<and> isolate (foldl (\<lambda>st (m, args).
                         case console stringify toString m args st of
                           Some st' \<Rightarrow> st'
                         | None \<Rightarrow> st) st0 calls)
      = isolate st0
    \<and> context (foldl (\<lambda>st (m, args).
                         case console stringify toString m args st of
                           Some st' \<Rightarrow> st'
                         | None \<Rightarrow> st) st0 calls)
      = context st0"
proof (induction calls arbitrary: st0)
  case Nil
  show ?case by simp
next
  case (Cons call calls)
  obtain m args where call: "call = (m, args)" by (cases call)
  have kept: "memoryLimit st = memoryLimit st0 \<and> isolate st = isolate st0
      \<and> context st = context st0"
    if "console stringify toString m args st0 = Some st" for st
    using that by (cases m) (auto simp: callLogSync_def logSync_def split: option.splits)
  show ?case
  proof (cases "console stringify toString m args st0")
    case None
    with call Cons.IH [of st0] show ?thesis by simp
  next
    case (Some st)
    with call Cons.IH [of st] kept [OF Some] show ?thesis by simp
  qed
qed

lemma execute_memory:
  assumes "thrown run = Some (Some raised)"
    and "includesStr raised ''Isolate was disposed''"
    and "\<not> includesStr raised ''Script execution timed out''"
  shows "\<exists>result s' effects.
       execute stringify toString s code mcpHandler run = (Returns result, s', effects)
       \<and> \<not> success result
       \<and> error result = Some (''Memory limit exceeded ('' @ showNat (memoryLimit s) @ ''MB)'')
       \<and> isolate s' = None \<and> context s' = None \<and> memoryLimit s' = memoryLimit s"
  using assms
  by (simp add: execute_def Let_def failure_def console_calls_keep initialize_def)

lemma execute_reinitializes:
  assumes "isolate s = None \<or> context s = None"
  shows "\<exists>outcome s' rest.
       execute stringify toString s code mcpHandler run = (outcome, s', Initialize # rest)
       \<and> Initialize \<notin> set rest \<and> Eval code \<in> set rest
       \<and> (thrown run = None \<longrightarrow>
            isolate s' = Some (Isolate (memoryLimit s))
            \<and> context s' = Some (Context (Isolate (memoryLimit s))))"
  using assms
  by (auto simp: execute_def Let_def console_calls_keep initialize_def split: option.splits)

text \<open>
  C3. When the evaluation is ended by the isolation layer's memory-limit failure (an error
  whose message contains \<open>Isolate was disposed\<close>, and not the time-out text that
  \<open>execute\<close> tests first), \<open>execute\<close> returns a result with \<open>success = false\<close> and the error
  \<open>Memory limit exceeded (<memoryLimit>MB)\<close>, and leaves \<open>isolate\<close> and \<open>context\<close> null. Every
  next call of \<open>execute\<close> then initializes before it evaluates its code, and, unless that
  evaluation raises too, leaves the sandbox with an isolate of the configured limit and a
  context of that isolate.
\<close>

theorem memory_limit_recovery:
  "thrown run = Some (Some raised) \<and> includesStr raised ''Isolate was disposed''
     \<and> \<not> includesStr raised ''Script execution timed out'' \<longrightarrow>
   (\<exists>result s' effects.
      execute stringify toString s code mcpHandler run = (Returns result, s', effects)
      \<and> \<not> success result
      \<and> error result = Some (''Memory limit exceeded ('' @ showNat (memoryLimit s) @ ''MB)'')
      \<and> isolate s' = None \<and> context s' = None
      \<and> (\<forall>code' mcpHandler' run'. \<exists>outcome s'' rest.
            execute stringify toString s' code' mcpHandler' run'
              = (outcome, s'', Initialize # rest)
            \<and> Initialize \<notin> set rest \<and> Eval code' \<in> set rest
            \<and> (thrown run' = None \<longrightarrow>
                 isolate s'' = Some (Isolate (memoryLimit s))
                 \<and> context s'' = Some (Context (Isolate (memoryLimit s))))))"
proof
  assume a: "thrown run = Some (Some raised) \<and> includesStr raised ''Isolate was disposed''
     \<and> \<not> includesStr raised ''Script execution timed out''"
  then obtain result s' effects
    where run: "execute stringify toString s code mcpHandler run = (Returns result, s', effects)"
      and res: "\<not> success result"
        "error result = Some (''Memory limit exceeded ('' @ showNat (memoryLimit s) @ ''MB)'')"
      and dead: "isolate s' = None" "context s' = None" and lim: "memoryLimit s' = memoryLimit s"
    using execute_memory [of run raised stringify toString s code mcpHandler] by blast
  have "\<exists>outcome s'' rest.
            execute stringify toString s' code' mcpHandler' run'
              = (outcome, s'', Initialize # rest)
            \<and> Initialize \<notin> set rest \<and> Eval code' \<in> set rest
            \<and> (thrown run' = None \<longrightarrow>
                 isolate s'' = Some (Isolate (memoryLimit s))
                 \<and> context s'' = Some (Context (Isolate (memoryLimit s))))"
    for code' mcpHandler' and run' :: "('a, 'b) evaluation"
    using execute_reinitializes [of s' stringify toString code' mcpHandler' run'] dead lim
    by simp
  with run res dead show "\<exists>result s' effects.
      execute stringify toString s code mcpHandler run = (Returns result, s', effects)
      \<and> \<not> success result
      \<and> error result = Some (''Memory limit exceeded ('' @ showNat (memoryLimit s) @ ''MB)'')
      \<and> isolate s' = None \<and> context s' = None
      \<and> (\<forall>code' mcpHandler' run'. \<exists>outcome s'' rest.
            execute stringify toString s' code' mcpHandler' run'
              = (outcome, s'', Initialize # rest)
            \<and> Initialize \<notin> set rest \<and> Eval code' \<in> set rest
            \<and> (thrown run' = None \<longrightarrow>
                 isolate s'' = Some (Isolate (memoryLimit s))
                 \<and> context s'' = Some (Context (Isolate (memoryLimit s)))))"
    by blast
qed

theorem memory_limit_recovery_witness:
  "\<exists>result s'.
     execute (\<lambda>obj. None) (\<lambda>p. '''') freshSandbox ''grow()'' True memoryKill
       = (Returns result, s', [Initialize, SetupMCPProxy, Eval ''grow()''])
     \<and> \<not> success result
     \<and> error result = Some ''Memory limit exceeded (128MB)''
     \<and> isolate s' = None \<and> context s' = None
     \<and> (\<exists>outcome s''.
           execute (\<lambda>obj. None) (\<lambda>p. '''') s' ''next()'' False quietRun
             = (outcome, s'', [Initialize, Eval ''next()''])
           \<and> isolate s'' = Some (Isolate 128))"
proof -
  have hyp: "thrown memoryKill
        = Some (Some ''Isolate was disposed during execution due to memory limit'')
      \<and> includesStr ''Isolate was disposed during execution due to memory limit''
          ''Isolate was disposed''
      \<and> \<not> includesStr ''Isolate was disposed during execution due to memory limit''
          ''Script execution timed out''"
    by (simp add: memoryKill_def)
  from memory_limit_recovery
    [of memoryKill "''Isolate was disposed during execution due to memory limit''"
      "\<lambda>obj. None" "\<lambda>p. ''''" freshSandbox "''grow()''" True] hyp
  obtain result s' effects
    where run: "execute (\<lambda>obj. None) (\<lambda>p. '''') freshSandbox ''grow()'' True memoryKill
                  = (Returns result, s', effects)"
      and res: "\<not> success result"
        "error result
           = Some (''Memory limit exceeded ('' @ showNat (memoryLimit freshSandbox) @ ''MB)'')"
      and dead: "isolate s' = None" "context s' = None"
      and again: "\<forall>code' mcpHandler' run'. \<exists>outcome s'' rest.
            execute (\<lambda>obj. None) (\<lambda>p. '''') s' code' mcpHandler' (run' :: (unit, unit) evaluation)
              = (outcome, s'', Initialize # rest)
            \<and> Initialize \<notin> set rest \<and> Eval code' \<in> set rest
            \<and> (thrown run' = None \<longrightarrow>
                 isolate s'' = Some (Isolate (memoryLimit freshSandbox))
                 \<and> context s'' = Some (Context (Isolate (memoryLimit freshSandbox))))"
    by blast
  have effects: "effects = [Initialize, SetupMCPProxy, Eval ''grow()'']"
    using run by (simp add: execute_def Let_def freshSandbox_def memoryKill_def)
  from again obtain outcome s'' rest
    where rerun: "execute (\<lambda>obj. None) (\<lambda>p. '''') s' ''next()'' False quietRun
                   = (outcome, s'', Initialize # rest)"
      and fresh: "thrown quietRun = None \<longrightarrow>
                 isolate s'' = Some (Isolate (memoryLimit freshSandbox))"
    by blast
  have rest: "Initialize # rest = [Initialize, Eval ''next()'']"
    using rerun dead by (simp add: execute_def Let_def quietRun_def)
  have "isolate s'' = Some (Isolate 128)"
    using fresh by (simp add: quietRun_def freshSandbox_def)
  with run res dead effects rerun rest show ?thesis
    by (simp add: freshSandbox_def showNat_128)
qed

lemma transferArgs_copied: "transferArgs (map Copied values) = Some values"
  by (induction "values") simp_all

lemma transferArgs_not_transferable: "transferArgs (before @ NotTransferable # after) = None"
proof (induction before)
  case Nil
  show ?case by simp
next
  case (Cons argument before)
  then show ?case by (cases argument) simp_all
qed

text \<open>
  A console call whose arguments can all be copied to the host appends exactly one line
  to the output. The line is the arguments' texts joined by single spaces, after the
  text \<open>ERROR:\<close> for \<open>console.error\<close> and \<open>WARN:\<close> for \<open>console.warn\<close>; the text of
  \<open>null\<close> is \<open>null\<close>, of \<open>undefined\<close> is \<open>undefined\<close>, of an object its JSON
  serialization, or \<open>[Object]\<close> when serializing raises, and of another primitive its
  string form.
\<close>

lemma console_copied_arguments:
  "console stringify toString ConsoleLog (map Copied args) s
     = Some (s\<lparr>logs := logs s @ [join '' '' (map (formatArg stringify toString) args)]\<rparr>)
   \<and> console stringify toString ConsoleError (map Copied args) s
     = Some (s\<lparr>logs := logs s
                   @ [join '' '' (''ERROR:'' # map (formatArg stringify toString) args)]\<rparr>)
   \<and> console stringify toString ConsoleWarn (map Copied args) s
     = Some (s\<lparr>logs := logs s
                   @ [join '' '' (''WARN:'' # map (formatArg stringify toString) args)]\<rparr>)
   \<and> formatArg stringify toString JNull = ''null''
   \<and> formatArg stringify toString JUndefined = ''undefined''
   \<and> formatArg stringify toString (JObject obj)
     = (case stringify obj of Some json \<Rightarrow> json | None \<Rightarrow> ''[Object]'')
   \<and> formatArg stringify toString (JString t) = t
   \<and> formatArg stringify toString (JOther p) = toString p
   \<and> join '' '' [a, b, c] = a @ '' '' @ b @ '' '' @ c"
  by (simp add: callLogSync_def logSync_def transferArgs_copied)

lemma console_copied_arguments_example:
  "map_option logs
     (console (\<lambda>obj. if obj then Some ''{}'' else None) (\<lambda>n. showNat n) ConsoleWarn
        (map Copied [JNull, JUndefined, JObject True, JObject False, JString ''a b'', JOther 128])
        (freshSandbox\<lparr>logs := [''first'']\<rparr>))
     = Some [''first'', ''WARN: null undefined {} [Object] a b 128'']"
  by (simp add: callLogSync_def logSync_def showNat_128)

text \<open>
  C8 fails for a console call with an argument that the isolation layer cannot copy to
  the host, such as a function: the call of \<open>_logSync\<close> raises inside the context, the
  host callback does not run, and no line is appended, whichever of the three entry
  points is called and whatever the other arguments are. The evaluation of
  \<open>console.log('before'); try { console.log('f is', () => 1) } catch (e) {}\<close> makes two
  console calls, and the output of its execution has the one line \<open>before\<close>.
\<close>

theorem console_call_with_function_raises:
  "console stringify toString entryPoint (before @ NotTransferable # after) s = None
   \<and> length (consoleCalls logsFunction) = 2
   \<and> fst (execute (\<lambda>obj. None) (\<lambda>p. '''') freshSandbox code False logsFunction)
       = Returns \<lparr>success = True, error = None, output = [''before''],
                  executionTimeMs = Some 1, validationErrors = None, rawError = None,
                  resultSourceMap = None\<rparr>"
proof -
  have "console stringify toString entryPoint (before @ NotTransferable # after) s = None"
    using transferArgs_not_transferable [of before after]
      transferArgs_not_transferable [of "Copied (JString ''ERROR:'') # before" after]
      transferArgs_not_transferable [of "Copied (JString ''WARN:'') # before" after]
    by (cases entryPoint) (simp_all add: callLogSync_def)
  moreover have "length (consoleCalls logsFunction) = 2"
    by (simp add: logsFunction_def)
  moreover have "fst (execute (\<lambda>obj. None) (\<lambda>p. '''') freshSandbox code False logsFunction)
       = Returns \<lparr>success = True, error = None, output = [''before''],
                  executionTimeMs = Some 1, validationErrors = None, rawError = None,
                  resultSourceMap = None\<rparr>"
    by (simp add: execute_def Let_def freshSandbox_def logsFunction_def initialize_def
        callLogSync_def logSync_def)
  ultimately show ?thesis by simp
qed

section \<open>Properties of the error mapper\<close>

lemma includesStr_iff: "includesStr s sub \<longleftrightarrow> (\<exists>pre post. s = pre @ sub @ post)"
proof (induction s)
  case Nil
  show ?case by auto
next
  case (Cons c cs)
  have "take (length sub) (c # cs) = sub \<longleftrightarrow> (\<exists>post. c # cs = sub @ post)"
    by (metis append_eq_conv_conj append_take_drop_id)
  moreover have "(\<exists>pre post. c # cs = pre @ sub @ post)
      \<longleftrightarrow> (\<exists>post. c # cs = sub @ post) \<or> (\<exists>pre post. cs = pre @ sub @ post)"
  proof
    assume "\<exists>pre post. c # cs = pre @ sub @ post"
    then obtain pre post where eq: "c # cs = pre @ sub @ post" by blast
    show "(\<exists>post. c # cs = sub @ post) \<or> (\<exists>pre post. cs = pre @ sub @ post)"
    proof (cases pre)
      case Nil
      with eq show ?thesis by auto
    next
      case (Cons a pre')
      with eq have "cs = pre' @ sub @ post" by simp
      then show ?thesis by blast
    qed
  next
    assume "(\<exists>post. c # cs = sub @ post) \<or> (\<exists>pre post. cs = pre @ sub @ post)"
    then show "\<exists>pre post. c # cs = pre @ sub @ post"
    proof
      assume "\<exists>post. c # cs = sub @ post"
      then obtain post where "c # cs = [] @ sub @ post" by auto
      then show ?thesis by blast
    next
      assume "\<exists>pre post. cs = pre @ sub @ post"
      then obtain pre post where "c # cs = (c # pre) @ sub @ post" by auto
      then show ?thesis by blast
    qed
  qed
  ultimately show ?case
    using Cons.IH by simp
qed

text \<open>The tests of the classifier, in their order.\<close>

lemma isRecoverable_in_order:
  "(errorName e = ''SyntaxError'' \<longrightarrow> \<not> isRecoverable e)
   \<and> (errorName e \<noteq> ''SyntaxError''
        \<and> (includesStr (errorMessage e) ''memory'' \<or> includesStr (errorMessage e) ''timeout'')
        \<longrightarrow> isRecoverable e)
   \<and> (errorName e = ''TypeError'' \<or> errorName e = ''ReferenceError'' \<longrightarrow> isRecoverable e)
   \<and> (errorName e \<noteq> ''SyntaxError'' \<and> errorName e \<noteq> ''TypeError''
        \<and> errorName e \<noteq> ''ReferenceError''
        \<and> \<not> includesStr (errorMessage e) ''memory''
        \<and> \<not> includesStr (errorMessage e) ''timeout''
        \<longrightarrow> \<not> isRecoverable e)"
  by (auto simp: isRecoverable_def)

lemma isRecoverable_type_error_example: "isRecoverable notAFunctionError"
  by (simp add: notAFunctionError_def isRecoverable_def)

text \<open>
  C9 fails for an error whose message names the memory condition with a capital letter,
  as the message does with which the isolated sandbox reports its memory limit: the test
  \<open>error.message.includes('memory')\<close> is case-sensitive (\<open>getSuggestion\<close> lower-cases the
  message before the same test, \<open>isRecoverable\<close> does not), so the error is classified as
  not recoverable. The same error with its message in lower case is recoverable, and so
  is the error with the sandbox's time-out message.
\<close>

theorem memory_limit_error_not_recoverable:
  "errorMessage sandboxMemoryError = ''Memory limit exceeded ('' @ showNat 128 @ ''MB)''
   \<and> errorName sandboxMemoryError \<noteq> ''SyntaxError''
   \<and> includesStr (asciiToLowerCase (errorMessage sandboxMemoryError)) ''memory''
   \<and> \<not> isRecoverable sandboxMemoryError
   \<and> isRecoverable
       (sandboxMemoryError\<lparr>errorMessage := asciiToLowerCase (errorMessage sandboxMemoryError)\<rparr>)
   \<and> isRecoverable
       \<lparr>errorName = ''Error'',
        errorMessage = ''Execution timeout ('' @ showNat 5000 @ ''ms exceeded)''\<rparr>"
proof -
  have lower: "asciiToLowerCase ''Memory limit exceeded (128MB)''
      = ''memory limit exceeded (128mb)''"
    by (simp add: asciiToLowerCase_def upperLetters_def lowerLetters_def)
  have five: "showNat 5000 = ''5000''"
    by (simp add: showNat.simps digits_def)
  show ?thesis
    by (simp add: sandboxMemoryError_def isRecoverable_def showNat_128 lower five)
qed

section \<open>Properties of the worker-thread sandbox\<close>

text \<open>
  C1 fails in the worker-thread sandbox. A pending call waits for a message whose
  \<open>method\<close> is its tool's name, so two pending calls of one tool both take the first
  response: with a handler that returns its input, the call with input 2 is resolved
  with 1 when the invocation for input 1 ends first, and the call with input 1 is
  resolved with 2 when the other one does. The reply to the later invocation reaches no
  call.
\<close>

theorem same_tool_calls_share_first_response:
  "hostReply echoHandler (''echo'', 2)
     = \<lparr>msgMethod = ''echo'', msgResult = Some 2, msgError = None\<rparr>
   \<and> settled (concurrentCalls echoHandler [(''echo'', 1), (''echo'', 2)] [0, 1])
     = [(0, Resolved (Some 1)), (1, Resolved (Some 1))]
   \<and> settled (concurrentCalls echoHandler [(''echo'', 1), (''echo'', 2)] [1, 0])
     = [(0, Resolved (Some 2)), (1, Resolved (Some 2))]"
  by (simp add: concurrentCalls_def mcpCall_def deliver_def hostReply_def echoHandler_def
      upt_rec)

text \<open>Calls of different tools are told apart.\<close>

lemma different_tools_keep_their_responses:
  "settled (concurrentCalls echoHandler [(''a'', 1), (''b'', 2)] [1, 0])
     = [(1, Resolved (Some 2)), (0, Resolved (Some 1))]"
  by (simp add: concurrentCalls_def mcpCall_def deliver_def hostReply_def echoHandler_def
      upt_rec)




lemma hostRun_append: "hostRun (earlier @ later) h = hostRun later (hostRun earlier h)"
  by (simp add: hostRun_def)




end
